theory Spec2Isabelle
  imports Main "HOL-Library.Sublist"
begin

section \<open>The SQL databases data source: filter pipeline, projector, field verification\<close>

text \<open>
  A shallow embedding of \<^verbatim>\<open>data_source_sql_databases.go\<close> (the functions
  \<^verbatim>\<open>regexMatch\<close>, \<^verbatim>\<open>applyFilterOnDatabases\<close>, \<^verbatim>\<open>flattenDatabases\<close> and the part
  of \<^verbatim>\<open>dataSourceSqlDatabasesRead\<close> that follows the list call) and of the test helper
  \<^verbatim>\<open>checkDatabaseFieldsMatchForDataSourceStateAndResourceState\<close>.

  Conventions: a Go \<^verbatim>\<open>error\<close> is its message; a function returning \<^verbatim>\<open>(v, err)\<close> returns
  a pair whose second component is \<open>None\<close> for \<^verbatim>\<open>nil\<close>; a slice is a list option
  with \<open>None\<close> for the \<^verbatim>\<open>nil\<close> slice; strings are byte lists.
\<close>

subsection \<open>The regular expression library\<close>

text \<open>
  The code calls \<^verbatim>\<open>regexp.MatchString(pattern, s)\<close> of the Go standard library, which
  compiles the pattern (an error when it is malformed) and then reports whether \<open>s\<close>
  contains a match. The library is a parameter of the model: a compile function and a
  match function on compiled expressions.
\<close>

record 'r regexp =
  Compile :: "string \<Rightarrow> 'r option"
  MatchRe :: "'r \<Rightarrow> string \<Rightarrow> bool"

definition MatchString :: "'r regexp \<Rightarrow> string \<Rightarrow> string \<Rightarrow> bool option" where
  "MatchString rx pattern s =
     (case Compile rx pattern of
        None \<Rightarrow> None
      | Some re \<Rightarrow> Some (MatchRe rx re s))"

text \<open>
  A concrete instance for the scenarios: the library's syntax restricted to literal
  bytes, \<^verbatim>\<open>.\<close>, bracket classes of bytes and ranges (with leading \<^verbatim>\<open>^\<close>), and the
  postfix operators \<^verbatim>\<open>*\<close>, \<^verbatim>\<open>+\<close>, \<^verbatim>\<open>?\<close> (each optionally followed by the lazy
  marker \<^verbatim>\<open>?\<close>). \<open>goCompile\<close> gives \<open>None\<close> on a pattern the library rejects
  inside this fragment (a repetition operator without argument, a stacked repetition
  operator, a missing \<^verbatim>\<open>]\<close>, a reversed range) and also on every pattern that uses
  syntax beyond the fragment; only patterns of the fragment are used with it below.
\<close>

datatype atom = Lit char | AnyChar | Class bool "(char \<times> char) list"

datatype rep = Once | Star | Plus | Opt

type_synonym regex = "(atom \<times> rep) list"

definition classChar :: "char \<Rightarrow> bool" where
  "classChar c = (c \<notin> {CHR ''['', CHR '']'', CHR 0x5C, CHR ''^'', CHR ''-''})"

definition metaChar :: "char \<Rightarrow> bool" where
  "metaChar c = (c \<in> {CHR 0x5C, CHR ''.'', CHR ''+'', CHR ''*'', CHR ''?'', CHR ''('', CHR '')'',
                      CHR ''|'', CHR ''['', CHR '']'', CHR ''{'', CHR ''}'', CHR ''^'', CHR ''$''})"

definition consItem ::
  "char \<times> char \<Rightarrow> ((char \<times> char) list \<times> string) option
     \<Rightarrow> ((char \<times> char) list \<times> string) option" where
  "consItem x r = (case r of None \<Rightarrow> None | Some (rs, t) \<Rightarrow> Some (x # rs, t))"

fun classItems :: "string \<Rightarrow> ((char \<times> char) list \<times> string) option" where
  "classItems [] = None"
| "classItems (c # cs) =
     (if c = CHR '']'' then Some ([], cs)
      else if \<not> classChar c then None
      else (case cs of
              d # hi # rest \<Rightarrow>
                if d = CHR ''-'' then
                  (if classChar hi \<and> (of_char c :: nat) \<le> of_char hi
                   then consItem (c, hi) (classItems rest)
                   else None)
                else consItem (c, c) (classItems cs)
            | _ \<Rightarrow> consItem (c, c) (classItems cs)))"

definition parseAtom :: "char \<Rightarrow> string \<Rightarrow> (atom \<times> string) option" where
  "parseAtom c cs =
     (if c = CHR ''.'' then Some (AnyChar, cs)
      else if c = CHR ''['' then
        (case classItems (case cs of d # ds \<Rightarrow> if d = CHR ''^'' then ds else cs | [] \<Rightarrow> []) of
           None \<Rightarrow> None
         | Some (rs, t) \<Rightarrow>
             if rs = [] then None
             else Some (Class (case cs of d # ds \<Rightarrow> d = CHR ''^'' | [] \<Rightarrow> False) rs, t))
      else if metaChar c then None
      else Some (Lit c, cs))"

definition dropLazy :: "string \<Rightarrow> string" where
  "dropLazy t = (case t of c # cs \<Rightarrow> if c = CHR ''?'' then cs else t | [] \<Rightarrow> [])"

definition parseRep :: "string \<Rightarrow> rep \<times> string" where
  "parseRep t =
     (case t of
        [] \<Rightarrow> (Once, [])
      | c # cs \<Rightarrow>
          if c = CHR ''*'' then (Star, dropLazy cs)
          else if c = CHR ''+'' then (Plus, dropLazy cs)
          else if c = CHR ''?'' then (Opt, dropLazy cs)
          else (Once, t))"

function goCompile :: "string \<Rightarrow> regex option" where
  "goCompile [] = Some []"
| "goCompile (c # cs) =
     (case parseAtom c cs of
        None \<Rightarrow> None
      | Some (a, t) \<Rightarrow>
          (case goCompile (snd (parseRep t)) of
             None \<Rightarrow> None
           | Some rs \<Rightarrow> Some ((a, fst (parseRep t)) # rs)))"
  by pat_completeness auto
fun atomMatches :: "atom \<Rightarrow> char \<Rightarrow> bool" where
  "atomMatches (Lit l) c = (c = l)"
| "atomMatches AnyChar c = (c \<noteq> CHR 0x0A)"
| "atomMatches (Class neg rs) c =
     (neg \<noteq> (\<exists>(lo, hi) \<in> set rs. (of_char lo :: nat) \<le> of_char c \<and> (of_char c :: nat) \<le> of_char hi))"

text \<open>\<open>matchHere r s\<close>: some prefix of \<open>s\<close> matches \<open>r\<close>.\<close>

fun matchHere :: "regex \<Rightarrow> string \<Rightarrow> bool" where
  "matchHere [] s = True"
| "matchHere ((a, Once) # r) [] = False"
| "matchHere ((a, Once) # r) (c # cs) = (atomMatches a c \<and> matchHere r cs)"
| "matchHere ((a, Opt) # r) [] = matchHere r []"
| "matchHere ((a, Opt) # r) (c # cs) = (matchHere r (c # cs) \<or> (atomMatches a c \<and> matchHere r cs))"
| "matchHere ((a, Star) # r) [] = matchHere r []"
| "matchHere ((a, Star) # r) (c # cs) =
     (matchHere r (c # cs) \<or> (atomMatches a c \<and> matchHere ((a, Star) # r) cs))"
| "matchHere ((a, Plus) # r) [] = False"
| "matchHere ((a, Plus) # r) (c # cs) = (atomMatches a c \<and> matchHere ((a, Star) # r) cs)"

text \<open>\<open>matchAnywhere r s\<close>: \<open>s\<close> contains a match of \<open>r\<close> (the search is unanchored).\<close>

fun matchAnywhere :: "regex \<Rightarrow> string \<Rightarrow> bool" where
  "matchAnywhere r [] = matchHere r []"
| "matchAnywhere r (c # cs) = (matchHere r (c # cs) \<or> matchAnywhere r cs)"

definition goRegexp :: "regex regexp" where
  "goRegexp = \<lparr>Compile = goCompile, MatchRe = matchAnywhere\<rparr>"

subsection \<open>Data\<close>

text \<open>
  \<^verbatim>\<open>sqladmin.Database\<close>, with the fields the data source reads. The list elements are
  pointers the API client allocates; they are never \<^verbatim>\<open>nil\<close>.
\<close>

record Database =
  Charset :: string
  Collation :: string
  Instance :: string
  Name :: string
  Project :: string
  SelfLink :: string

text \<open>
  One element of the \<^verbatim>\<open>filters\<close> list: the schema makes it a map with the keys
  \<^verbatim>\<open>name\<close> (a string), \<^verbatim>\<open>values\<close> and \<^verbatim>\<open>exclude_values\<close> (lists of strings, empty
  when not configured), so the type assertions of the code succeed. An element of the
  list can be \<^verbatim>\<open>nil\<close>: \<open>None\<close>.
\<close>

record FilterClause =
  filter_name :: string
  filter_values :: "string list"
  filter_exclude_values :: "string list"

type_synonym error = string

definition elems :: "'a list option \<Rightarrow> 'a list" where
  "elems s = (case s of None \<Rightarrow> [] | Some xs \<Rightarrow> xs)"

subsection \<open>regexMatch\<close>

text \<open>The first loop of \<^verbatim>\<open>regexMatch\<close>, over \<^verbatim>\<open>filter["values"]\<close>, with its variable \<open>b\<close>.\<close>

fun valuesLoop :: "'r regexp \<Rightarrow> string \<Rightarrow> bool \<Rightarrow> string list \<Rightarrow> error + bool" where
  "valuesLoop rx field b [] = Inr b"
| "valuesLoop rx field b (regex # rest) =
     (case MatchString rx regex field of
        None \<Rightarrow> Inl (''Invalid regex '' @ regex)
      | Some match \<Rightarrow> valuesLoop rx field (b \<or> match) rest)"

text \<open>The second loop, over \<^verbatim>\<open>filter["exclude_values"]\<close>, with the variable \<^verbatim>\<open>include\<close>.\<close>

fun excludeLoop :: "'r regexp \<Rightarrow> string \<Rightarrow> bool \<Rightarrow> string list \<Rightarrow> bool \<times> error option" where
  "excludeLoop rx field incl [] = (incl, None)"
| "excludeLoop rx field incl (regex # rest) =
     (case MatchString rx regex field of
        None \<Rightarrow> (incl, Some (''Invalid regex '' @ regex))
      | Some match \<Rightarrow> excludeLoop rx field (if match then False else incl) rest)"

definition regexMatch :: "'r regexp \<Rightarrow> FilterClause \<Rightarrow> string \<Rightarrow> bool \<Rightarrow> bool \<times> error option" where
  "regexMatch rx fltr field incl =
     (case valuesLoop rx field False (filter_values fltr) of
        Inl err \<Rightarrow> (incl, Some err)
      | Inr b \<Rightarrow>
          excludeLoop rx field
            (if length (filter_values fltr) > 0 then incl \<and> b else incl)
            (filter_exclude_values fltr))"

subsection \<open>applyFilterOnDatabases\<close>

text \<open>
  The inner loop over \<^verbatim>\<open>databaseFilters\<close> for one database \<open>d\<close>: \<open>Inl err\<close> when the
  function returns from inside the loop, \<open>Inr include\<close> when the loop ends.
\<close>

fun filtersLoop :: "'r regexp \<Rightarrow> Database \<Rightarrow> bool \<Rightarrow> FilterClause option list \<Rightarrow> error + bool" where
  "filtersLoop rx d incl [] = Inr incl"
| "filtersLoop rx d incl (f # fs) =
     (case f of
        None \<Rightarrow> filtersLoop rx d incl fs
      | Some fltr \<Rightarrow>
          if \<not> incl then Inr incl
          else if filter_name fltr = ''name'' then
            (case regexMatch rx fltr (Name d) incl of
               (i, Some err) \<Rightarrow> Inl err
             | (i, None) \<Rightarrow> filtersLoop rx d i fs)
          else if filter_name fltr = ''charset'' then
            (case regexMatch rx fltr (Charset d) incl of
               (i, Some err) \<Rightarrow> Inl err
             | (i, None) \<Rightarrow> filtersLoop rx d i fs)
          else if filter_name fltr = ''collation'' then
            (case regexMatch rx fltr (Collation d) incl of
               (i, Some err) \<Rightarrow> Inl err
             | (i, None) \<Rightarrow> filtersLoop rx d i fs)
          else Inl ''Invalid filter'')"

text \<open>The outer loop over \<^verbatim>\<open>databases\<close>, with the variable \<^verbatim>\<open>filteredDatabases\<close>.\<close>

fun databasesLoop ::
  "'r regexp \<Rightarrow> FilterClause option list \<Rightarrow> Database list \<Rightarrow> Database list
     \<Rightarrow> Database list \<times> error option" where
  "databasesLoop rx databaseFilters filteredDatabases [] = (filteredDatabases, None)"
| "databasesLoop rx databaseFilters filteredDatabases (d # ds) =
     (case filtersLoop rx d True databaseFilters of
        Inl err \<Rightarrow> (filteredDatabases, Some err)
      | Inr incl \<Rightarrow>
          databasesLoop rx databaseFilters
            (if incl then filteredDatabases @ [d] else filteredDatabases) ds)"

definition applyFilterOnDatabases ::
  "'r regexp \<Rightarrow> Database list option \<Rightarrow> FilterClause option list
     \<Rightarrow> Database list option \<times> error option" where
  "applyFilterOnDatabases rx databases databaseFilters =
     (if length (elems databases) = 0 then (databases, None)
      else (case databasesLoop rx databaseFilters [] (elems databases) of
              (filteredDatabases, err) \<Rightarrow> (Some filteredDatabases, err)))"

subsection \<open>flattenDatabases\<close>

text \<open>The body of the loop: the map built for one \<^verbatim>\<open>rawDatabase\<close>.\<close>

definition flattenDatabase :: "Database \<Rightarrow> (string \<rightharpoonup> string)" where
  "flattenDatabase rawDatabase =
     [''name'' \<mapsto> Name rawDatabase,
      ''instance'' \<mapsto> Instance rawDatabase,
      ''project'' \<mapsto> Project rawDatabase,
      ''charset'' \<mapsto> Charset rawDatabase,
      ''collation'' \<mapsto> Collation rawDatabase,
      ''self_link'' \<mapsto> SelfLink rawDatabase]"

fun flattenLoop ::
  "(string \<rightharpoonup> string) list \<Rightarrow> Database list \<Rightarrow> (string \<rightharpoonup> string) list" where
  "flattenLoop databases [] = databases"
| "flattenLoop databases (rawDatabase # rest) =
     flattenLoop (databases @ [flattenDatabase rawDatabase]) rest"

definition flattenDatabases :: "Database list option \<Rightarrow> (string \<rightharpoonup> string) list option" where
  "flattenDatabases fetchedDatabases =
     (case fetchedDatabases of
        None \<Rightarrow> Some []
      | Some ds \<Rightarrow> Some (flattenLoop [] ds))"

subsection \<open>dataSourceSqlDatabasesRead, after the list call\<close>

text \<open>
  The resource data \<open>d\<close>: the configured \<^verbatim>\<open>instance\<close> and \<^verbatim>\<open>filters\<close>, the computed
  \<^verbatim>\<open>databases\<close> (\<open>None\<close> while it has not been set) and the id. The model starts where
  the user agent, the project and the list response \<^verbatim>\<open>databases.Items\<close> have been
  obtained; \<^verbatim>\<open>d.GetOk("filters")\<close> reports \<^verbatim>\<open>ok\<close> when the list is not empty, and
  \<^verbatim>\<open>d.Set\<close> of a value of the schema's shape succeeds.
\<close>

record ResourceData =
  rd_instance :: string
  rd_filters :: "FilterClause option list"
  rd_databases :: "(string \<rightharpoonup> string) list option"
  rd_id :: string

definition dataSourceSqlDatabasesRead ::
  "'r regexp \<Rightarrow> string \<Rightarrow> Database list option \<Rightarrow> ResourceData \<Rightarrow> ResourceData \<times> error option" where
  "dataSourceSqlDatabasesRead rx project items d =
     (case (if rd_filters d \<noteq> [] then applyFilterOnDatabases rx items (rd_filters d)
            else (items, None)) of
        (filteredDatabases, Some err) \<Rightarrow> (d, Some err)
      | (filteredDatabases, None) \<Rightarrow>
          (d\<lparr>rd_databases := flattenDatabases filteredDatabases,
             rd_id := ''projects/'' @ project @ ''/instances/'' @ rd_instance d @ ''/101''\<rparr>,
           None))"

subsection \<open>The field verification of the acceptance tests\<close>

text \<open>
  \<^verbatim>\<open>strconv.Itoa\<close> and \<^verbatim>\<open>strconv.Atoi\<close> of the Go standard library, for the 64-bit
  \<^verbatim>\<open>int\<close>: decimal digits with an optional sign, an error outside the range.
\<close>

fun digitsOf :: "nat \<Rightarrow> string" where
  "digitsOf n =
     (if n < 10 then [char_of (48 + n)]
      else digitsOf (n div 10) @ [char_of (48 + n mod 10)])"

declare digitsOf.simps [simp del]

definition Itoa :: "int \<Rightarrow> string" where
  "Itoa i = (if i < 0 then CHR ''-'' # digitsOf (nat (- i)) else digitsOf (nat i))"

definition digitVal :: "char \<Rightarrow> nat option" where
  "digitVal c =
     (if 48 \<le> (of_char c :: nat) \<and> (of_char c :: nat) \<le> 57 then Some (of_char c - 48) else None)"

fun parseDigits :: "nat \<Rightarrow> string \<Rightarrow> nat option" where
  "parseDigits n [] = Some n"
| "parseDigits n (c # cs) =
     (case digitVal c of
        None \<Rightarrow> None
      | Some v \<Rightarrow> parseDigits (n * 10 + v) cs)"

definition Atoi :: "string \<Rightarrow> int option" where
  "Atoi s =
     (case s of
        [] \<Rightarrow> None
      | c # cs \<Rightarrow>
          if (if c = CHR ''-'' \<or> c = CHR ''+'' then cs else s) = [] then None
          else (case parseDigits 0 (if c = CHR ''-'' \<or> c = CHR ''+'' then cs else s) of
                  None \<Rightarrow> None
                | Some n \<Rightarrow>
                    if c = CHR ''-''
                    then (if int n \<le> 2 ^ 63 then Some (- int n) else None)
                    else (if int n < 2 ^ 63 then Some (int n) else None)))"

text \<open>Indexing a Go \<^verbatim>\<open>map[string]string\<close>: the empty string for a missing key.\<close>

definition attr :: "(string \<rightharpoonup> string) \<Rightarrow> string \<Rightarrow> string" where
  "attr m k = (case m k of None \<Rightarrow> [] | Some v \<Rightarrow> v)"

text \<open>The loop \<^verbatim>\<open>for i := 0; i < totalInstances; i++\<close> that sets \<^verbatim>\<open>index\<close>.\<close>

function indexLoop ::
  "(string \<rightharpoonup> string) \<Rightarrow> (string \<rightharpoonup> string) \<Rightarrow> int \<Rightarrow> int \<Rightarrow> string \<Rightarrow> string" where
  "indexLoop dsAttr rsAttr totalInstances i index =
     (if i < totalInstances then
        indexLoop dsAttr rsAttr totalInstances (i + 1)
          (if attr dsAttr (''databases.'' @ Itoa i @ ''.name'') = attr rsAttr ''name''
           then Itoa i else index)
      else index)"
  by pat_completeness auto
termination
  by (relation "measure (\<lambda>(dsAttr, rsAttr, totalInstances, i, index). nat (totalInstances - i))")
     auto

declare indexLoop.simps [simp del]

text \<open>
  The loop \<^verbatim>\<open>for k := range rsAttr\<close> that builds \<^verbatim>\<open>errMsg\<close>. Go leaves the order of
  a map iteration open: the keys of \<open>rsAttr\<close> arrive as the list \<open>order\<close>. The slice
  expression \<^verbatim>\<open>k[len(k)-1:]\<close> panics on the empty key: \<open>None\<close>.
\<close>

fun fieldsLoop ::
  "(string \<rightharpoonup> string) \<Rightarrow> (string \<rightharpoonup> string) \<Rightarrow> string set \<Rightarrow> string \<Rightarrow> string
     \<Rightarrow> string list \<Rightarrow> string option" where
  "fieldsLoop dsAttr rsAttr ignoreFields index errMsg [] = Some errMsg"
| "fieldsLoop dsAttr rsAttr ignoreFields index errMsg (k # rest) =
     (if k \<in> ignoreFields then fieldsLoop dsAttr rsAttr ignoreFields index errMsg rest
      else if k = ''%'' then fieldsLoop dsAttr rsAttr ignoreFields index errMsg rest
      else if attr dsAttr (''databases.'' @ index @ ''.'' @ k) \<noteq> attr rsAttr k then
        (if k = [] then None
         else if [last k] = ''#''
              \<and> (attr dsAttr (''databases.'' @ index @ ''.'' @ k) = []
                   \<or> attr dsAttr (''databases.'' @ index @ ''.'' @ k) = ''0'')
              \<and> (attr rsAttr k = [] \<or> attr rsAttr k = ''0'')
         then fieldsLoop dsAttr rsAttr ignoreFields index errMsg rest
         else fieldsLoop dsAttr rsAttr ignoreFields index
                (errMsg @ k @ '' is '' @ attr dsAttr (''databases.'' @ index @ ''.'' @ k)
                   @ ''; want '' @ attr rsAttr k @ [CHR 0x0A])
                rest)
      else fieldsLoop dsAttr rsAttr ignoreFields index errMsg rest)"

datatype outcome = Returns "error option" | Panics

definition checkDatabaseFieldsMatchForDataSourceStateAndResourceState ::
  "(string \<rightharpoonup> string) \<Rightarrow> (string \<rightharpoonup> string) \<Rightarrow> string list \<Rightarrow> string set \<Rightarrow> outcome" where
  "checkDatabaseFieldsMatchForDataSourceStateAndResourceState dsAttr rsAttr order ignoreFields =
     (case Atoi (attr dsAttr ''databases.#'') of
        None \<Rightarrow> Returns (Some ''Couldn't convert length of instances list to integer'')
      | Some totalInstances \<Rightarrow>
          if indexLoop dsAttr rsAttr totalInstances 0 ''-1'' = ''-1''
          then Returns (Some ''The newly created intance is not found in the data source'')
          else (case fieldsLoop dsAttr rsAttr ignoreFields
                       (indexLoop dsAttr rsAttr totalInstances 0 ''-1'') [] order of
                  None \<Rightarrow> Panics
                | Some errMsg \<Rightarrow>
                    if errMsg \<noteq> [] then Returns (Some errMsg) else Returns None))"

subsection \<open>Vocabulary of the statements\<close>

text \<open>
  A pattern is malformed when it does not compile; it matches a string when
  \<^verbatim>\<open>regexp.MatchString\<close> returns \<^verbatim>\<open>true\<close> without error.
\<close>

definition malformed :: "'r regexp \<Rightarrow> string \<Rightarrow> bool" where
  "malformed rx pattern = (Compile rx pattern = None)"

definition matches :: "'r regexp \<Rightarrow> string \<Rightarrow> string \<Rightarrow> bool" where
  "matches rx pattern s = (MatchString rx pattern s = Some True)"

definition firstMalformed :: "'r regexp \<Rightarrow> string list \<Rightarrow> string option" where
  "firstMalformed rx ps = find (malformed rx) ps"

text \<open>The field a clause names, resolved on a record: the three cases of the \<^verbatim>\<open>switch\<close>.\<close>

definition resolveField :: "string \<Rightarrow> Database \<Rightarrow> string option" where
  "resolveField n d =
     (if n = ''name'' then Some (Name d)
      else if n = ''charset'' then Some (Charset d)
      else if n = ''collation'' then Some (Collation d)
      else None)"

text \<open>
  The error a clause raises when a record's evaluation reaches it; it does not depend on
  the record.
\<close>

definition clauseError :: "'r regexp \<Rightarrow> FilterClause \<Rightarrow> error option" where
  "clauseError rx c =
     (if filter_name c \<noteq> ''name'' \<and> filter_name c \<noteq> ''charset'' \<and> filter_name c \<noteq> ''collation''
      then Some ''Invalid filter''
      else map_option (\<lambda>p. ''Invalid regex '' @ p)
             (firstMalformed rx (filter_values c @ filter_exclude_values c)))"

text \<open>
  The specification's reading of one clause on one record (section 4.1): the include
  evaluation is a disjunction over the include patterns and is skipped when there are
  none; a matching exclude pattern forces exclusion. A record survives when every clause
  includes it.
\<close>

definition clauseIncludes :: "'r regexp \<Rightarrow> Database \<Rightarrow> FilterClause \<Rightarrow> bool" where
  "clauseIncludes rx d c =
     (case resolveField (filter_name c) d of
        None \<Rightarrow> False
      | Some v \<Rightarrow>
          (filter_values c = [] \<or> (\<exists>p \<in> set (filter_values c). matches rx p v))
          \<and> \<not> (\<exists>p \<in> set (filter_exclude_values c). matches rx p v))"

definition survives :: "'r regexp \<Rightarrow> FilterClause option list \<Rightarrow> Database \<Rightarrow> bool" where
  "survives rx fs d =
     list_all (\<lambda>f. case f of None \<Rightarrow> True | Some c \<Rightarrow> clauseIncludes rx d c) fs"

text \<open>
  The specification's reading of the field comparison (section 4.3): equal values, or a
  field whose name ends in \<^verbatim>\<open>#\<close> with both sides empty (blank or \<^verbatim>\<open>0\<close>).
\<close>

definition isEmptyRepr :: "string \<Rightarrow> bool" where
  "isEmptyRepr v = (v = [] \<or> v = ''0'')"

definition fieldAgrees :: "string \<Rightarrow> string \<Rightarrow> string \<Rightarrow> bool" where
  "fieldAgrees k actual expected =
     (actual = expected
      \<or> (k \<noteq> [] \<and> last k = CHR ''#'' \<and> isEmptyRepr actual \<and> isEmptyRepr expected))"

definition fieldCompared :: "string set \<Rightarrow> string \<Rightarrow> bool" where
  "fieldCompared ignoreFields k = (k \<notin> ignoreFields \<and> k \<noteq> ''%'')"

definition mismatchLine :: "string \<Rightarrow> string \<Rightarrow> string \<Rightarrow> string" where
  "mismatchLine k actual expected = k @ '' is '' @ actual @ ''; want '' @ expected @ [CHR 0x0A]"

definition dsField :: "(string \<rightharpoonup> string) \<Rightarrow> string \<Rightarrow> string \<Rightarrow> string" where
  "dsField dsAttr index k = attr dsAttr (''databases.'' @ index @ ''.'' @ k)"

text \<open>The keys of the expected record that the comparison reports, in iteration order.\<close>

definition mismatches ::
  "(string \<rightharpoonup> string) \<Rightarrow> (string \<rightharpoonup> string) \<Rightarrow> string set \<Rightarrow> string \<Rightarrow> string list
     \<Rightarrow> string list" where
  "mismatches dsAttr rsAttr ignoreFields index order =
     filter (\<lambda>k. fieldCompared ignoreFields k
                \<and> \<not> fieldAgrees k (dsField dsAttr index k) (attr rsAttr k)) order"

text \<open>
  The entry at position \<open>i\<close> of the data source is named like the expected record;
  \<open>i\<close> is the last such position below the count; there is no such position.
\<close>

definition entryNamed :: "(string \<rightharpoonup> string) \<Rightarrow> (string \<rightharpoonup> string) \<Rightarrow> int \<Rightarrow> bool" where
  "entryNamed dsAttr rsAttr i =
     (attr dsAttr (''databases.'' @ Itoa i @ ''.name'') = attr rsAttr ''name'')"

definition lastEntryNamed ::
  "(string \<rightharpoonup> string) \<Rightarrow> (string \<rightharpoonup> string) \<Rightarrow> int \<Rightarrow> int \<Rightarrow> bool" where
  "lastEntryNamed dsAttr rsAttr totalInstances i =
     (0 \<le> i \<and> i < totalInstances \<and> entryNamed dsAttr rsAttr i
      \<and> list_all (\<lambda>j. \<not> entryNamed dsAttr rsAttr j) [i + 1..totalInstances - 1])"

definition noEntryNamed :: "(string \<rightharpoonup> string) \<Rightarrow> (string \<rightharpoonup> string) \<Rightarrow> int \<Rightarrow> bool" where
  "noEntryNamed dsAttr rsAttr totalInstances =
     list_all (\<lambda>j. \<not> entryNamed dsAttr rsAttr j) [0..totalInstances - 1]"

subsection \<open>Data of the acceptance tests\<close>

text \<open>
  Records as the test configurations create them, the filter block of the name-filter
  test, and clauses that are invalid or neutral.
\<close>

definition exampleDb :: "string \<Rightarrow> string \<Rightarrow> Database" where
  "exampleDb n cs =
     \<lparr>Charset = cs, Collation = ''utf8_general_ci'', Instance = ''main'', Name = n,
      Project = ''proj'', SelfLink = ''sql/'' @ n\<rparr>"

definition nameFilter :: FilterClause where
  "nameFilter =
     \<lparr>filter_name = ''name'', filter_values = [''.*[0-9]''],
      filter_exclude_values = [''.*2'', ''.*3'']\<rparr>"

definition onlyOneFilter :: FilterClause where
  "onlyOneFilter =
     \<lparr>filter_name = ''name'', filter_values = [''.*1''], filter_exclude_values = []\<rparr>"

definition badRegexFilter :: FilterClause where
  "badRegexFilter =
     \<lparr>filter_name = ''name'', filter_values = [''[0-9''], filter_exclude_values = []\<rparr>"

definition sizeFilter :: FilterClause where
  "sizeFilter = \<lparr>filter_name = ''size'', filter_values = [], filter_exclude_values = []\<rparr>"

definition neutralFilter :: FilterClause where
  "neutralFilter = \<lparr>filter_name = ''charset'', filter_values = [], filter_exclude_values = []\<rparr>"

definition excludeTwoFilter :: FilterClause where
  "excludeTwoFilter =
     \<lparr>filter_name = ''name'', filter_values = [], filter_exclude_values = [''.*2'']\<rparr>"

definition exampleData :: "FilterClause option list \<Rightarrow> ResourceData" where
  "exampleData fs = \<lparr>rd_instance = ''main'', rd_filters = fs, rd_databases = None, rd_id = []\<rparr>"

definition exampleDsAttr :: "string \<rightharpoonup> string" where
  "exampleDsAttr =
     [''databases.#'' \<mapsto> ''3'',
      ''databases.0.name'' \<mapsto> ''pg-db1'',
      ''databases.0.charset'' \<mapsto> ''UTF8'',
      ''databases.0.instance'' \<mapsto> ''main'',
      ''databases.1.name'' \<mapsto> ''pg-db2'',
      ''databases.1.charset'' \<mapsto> ''UTF8'',
      ''databases.1.instance'' \<mapsto> ''main'',
      ''databases.1.labels.#'' \<mapsto> ''0'',
      ''databases.2.name'' \<mapsto> ''postgres'',
      ''databases.2.charset'' \<mapsto> ''UTF8'',
      ''databases.2.instance'' \<mapsto> ''main'']"

definition exampleRsAttr :: "string \<rightharpoonup> string" where
  "exampleRsAttr =
     [''name'' \<mapsto> ''pg-db2'',
      ''charset'' \<mapsto> ''UTF8'',
      ''instance'' \<mapsto> ''main'',
      ''labels.#'' \<mapsto> [],
      ''id'' \<mapsto> ''projects/proj/instances/main/databases/pg-db2'',
      ''deletion_policy'' \<mapsto> ''DELETE'']"

definition exampleRsAttrLatin :: "string \<rightharpoonup> string" where
  "exampleRsAttrLatin = exampleRsAttr(''charset'' \<mapsto> ''LATIN1'', ''instance'' \<mapsto> ''other'')"

definition exampleRsAttrAbsent :: "string \<rightharpoonup> string" where
  "exampleRsAttrAbsent = exampleRsAttr(''name'' \<mapsto> ''pg-db9'')"

definition exampleOrder :: "string list" where
  "exampleOrder = [''deletion_policy'', ''id'', ''labels.#'', ''instance'', ''charset'', ''name'']"

section \<open>Properties\<close>

subsection \<open>The pattern parser terminates\<close>

lemma consItem_Some:
  "consItem x r = Some (rs, t) \<Longrightarrow> \<exists>rs'. r = Some (rs', t)"
  by (cases r) (auto simp: consItem_def)

lemma classItems_shorter: "classItems s = Some (rs, t) \<Longrightarrow> length t < length s"
proof (induction s arbitrary: rs t rule: length_induct)
  case (1 s)
  show ?case
  proof (cases s)
    case Nil
    with "1.prems" show ?thesis by simp
  next
    case (Cons c cs)
    note s = Cons
    show ?thesis
    proof (cases "c = CHR '']''")
      case True
      with "1.prems" s show ?thesis by simp
    next
      case False
      note nclose = False
      from "1.prems" s nclose have cc: "classChar c"
        by (simp split: if_splits)
      show ?thesis
      proof (cases "\<exists>hi rest. cs = CHR ''-'' # hi # rest")
        case True
        then obtain hi rest where cs: "cs = CHR ''-'' # hi # rest" by blast
        from "1.prems" s nclose cc cs
        have "consItem (c, hi) (classItems rest) = Some (rs, t)"
          by (simp split: if_splits)
        then obtain rs' where "classItems rest = Some (rs', t)"
          using consItem_Some by blast
        moreover have "length rest < length s" using s cs by simp
        ultimately have "length t < length rest" using "1.IH" by blast
        then show ?thesis using s cs by simp
      next
        case False
        note ndash = False
        have "classItems (c # cs) = consItem (c, c) (classItems cs)"
        proof (cases cs)
          case Nil
          then show ?thesis using nclose cc by simp
        next
          case (Cons d ds)
          note cs = Cons
          show ?thesis
          proof (cases ds)
            case Nil
            then show ?thesis using nclose cc cs by simp
          next
            case (Cons hi rest)
            with ndash cs have "d \<noteq> CHR ''-''" by simp
            then show ?thesis using nclose cc cs Cons by simp
          qed
        qed
        with "1.prems" s
        have "consItem (c, c) (classItems cs) = Some (rs, t)"
          by simp
        then obtain rs' where "classItems cs = Some (rs', t)"
          using consItem_Some by blast
        moreover have "length cs < length s" using s by simp
        ultimately have "length t < length cs" using "1.IH" by blast
        then show ?thesis using s by simp
      qed
    qed
  qed
qed

lemma parseAtom_shorter: "parseAtom c cs = Some (a, t) \<Longrightarrow> length t \<le> length cs"
proof (cases "c = CHR ''[''")
  case False
  assume "parseAtom c cs = Some (a, t)"
  with False show ?thesis
    by (simp add: parseAtom_def split: if_splits)
next
  case True
  assume "parseAtom c cs = Some (a, t)"
  with True obtain rs where
    "classItems (case cs of d # ds \<Rightarrow> if d = CHR ''^'' then ds else cs | [] \<Rightarrow> []) = Some (rs, t)"
    by (auto simp: parseAtom_def split: option.splits if_splits)
  then have "length t < length (case cs of d # ds \<Rightarrow> if d = CHR ''^'' then ds else cs | [] \<Rightarrow> [])"
    by (rule classItems_shorter)
  also have "\<dots> \<le> length cs"
    by (simp split: list.splits)
  finally show ?thesis by simp
qed

lemma parseRep_shorter: "parseRep t = (r, t') \<Longrightarrow> length t' \<le> length t"
  by (auto simp: parseRep_def dropLazy_def split: if_splits list.splits)

termination goCompile
proof (relation "measure length")
  show "wf (measure length)" by simp
next
  fix c cs x2 a t
  assume "parseAtom c cs = Some x2" "(a, t) = x2"
  then have "length t \<le> length cs"
    using parseAtom_shorter by metis
  moreover have "length (snd (parseRep t)) \<le> length t"
    using parseRep_shorter [of t] by (cases "parseRep t") simp
  ultimately show "(snd (parseRep t), c # cs) \<in> measure length" by simp
qed

subsection \<open>The loops of regexMatch\<close>

lemma valuesLoop_eq:
  "valuesLoop rx field b ps =
     (case firstMalformed rx ps of
        Some p \<Rightarrow> Inl (''Invalid regex '' @ p)
      | None \<Rightarrow> Inr (b \<or> (\<exists>p \<in> set ps. matches rx p field)))"
  by (induction ps arbitrary: b)
     (auto simp: firstMalformed_def malformed_def matches_def MatchString_def split: option.splits)

lemma excludeLoop_err:
  "snd (excludeLoop rx field incl ps) =
     map_option (\<lambda>p. ''Invalid regex '' @ p) (firstMalformed rx ps)"
  by (induction ps arbitrary: incl)
     (auto simp: firstMalformed_def malformed_def MatchString_def split: option.splits)

lemma excludeLoop_ok:
  "firstMalformed rx ps = None \<Longrightarrow>
   excludeLoop rx field incl ps = (incl \<and> \<not> (\<exists>p \<in> set ps. matches rx p field), None)"
  by (induction ps arbitrary: incl)
     (auto simp: firstMalformed_def malformed_def matches_def MatchString_def
           split: option.splits if_splits)

lemma firstMalformed_append:
  "firstMalformed rx (ps @ qs) =
     (case firstMalformed rx ps of Some p \<Rightarrow> Some p | None \<Rightarrow> firstMalformed rx qs)"
  by (induction ps) (auto simp: firstMalformed_def)

lemma firstMalformed_Some:
  "firstMalformed rx ps = Some q \<Longrightarrow> q \<in> set ps \<and> malformed rx q"
  by (induction ps) (auto simp: firstMalformed_def split: if_splits)

lemma firstMalformed_None:
  "firstMalformed rx ps = None \<longleftrightarrow> (\<forall>p \<in> set ps. \<not> malformed rx p)"
  by (induction ps) (auto simp: firstMalformed_def)

lemma regexMatch_err:
  "snd (regexMatch rx c field incl) =
     map_option (\<lambda>p. ''Invalid regex '' @ p)
       (firstMalformed rx (filter_values c @ filter_exclude_values c))"
  by (simp add: regexMatch_def valuesLoop_eq firstMalformed_append excludeLoop_err
           split: option.splits)

lemma regexMatch_ok:
  assumes "firstMalformed rx (filter_values c @ filter_exclude_values c) = None"
  shows "regexMatch rx c field incl =
           (incl \<and> (filter_values c = [] \<or> (\<exists>p \<in> set (filter_values c). matches rx p field))
                 \<and> \<not> (\<exists>p \<in> set (filter_exclude_values c). matches rx p field), None)"
proof -
  from assms have v: "firstMalformed rx (filter_values c) = None"
    and e: "firstMalformed rx (filter_exclude_values c) = None"
    by (auto simp: firstMalformed_append split: option.splits)
  show ?thesis
    by (auto simp add: regexMatch_def valuesLoop_eq v excludeLoop_ok [OF e])
qed

subsection \<open>The loop over the clauses\<close>

lemma filtersLoop_False: "filtersLoop rx d False fs = Inr False"
  by (induction fs) (auto split: option.splits)

lemma resolveField_None:
  "resolveField n d = None \<longleftrightarrow> (n \<noteq> ''name'' \<and> n \<noteq> ''charset'' \<and> n \<noteq> ''collation'')"
  by (simp add: resolveField_def)

lemma filtersLoop_Some:
  "filtersLoop rx d True (Some c # fs) =
     (case clauseError rx c of
        Some e \<Rightarrow> Inl e
      | None \<Rightarrow> filtersLoop rx d (clauseIncludes rx d c) fs)"
proof (cases "resolveField (filter_name c) d")
  case None
  then show ?thesis
    by (simp add: resolveField_def clauseError_def split: if_splits)
next
  case (Some v)
  note v = Some
  then have known: "\<not> (filter_name c \<noteq> ''name'' \<and> filter_name c \<noteq> ''charset''
                        \<and> filter_name c \<noteq> ''collation'')"
    using resolveField_None [of "filter_name c" d] by simp
  show ?thesis
  proof (cases "firstMalformed rx (filter_values c @ filter_exclude_values c)")
    case None
    have "regexMatch rx c v True = (clauseIncludes rx d c, None)"
      using regexMatch_ok [OF None, of v True] v by (simp add: clauseIncludes_def)
    moreover have "clauseError rx c = None"
      using known None by (simp add: clauseError_def)
    ultimately show ?thesis using v
      by (auto simp: resolveField_def split: if_splits)
  next
    case (Some p)
    have "snd (regexMatch rx c v True) = Some (''Invalid regex '' @ p)"
      using regexMatch_err [of rx c v True] Some by simp
    then obtain i where "regexMatch rx c v True = (i, Some (''Invalid regex '' @ p))"
      by (cases "regexMatch rx c v True") simp
    moreover have "clauseError rx c = Some (''Invalid regex '' @ p)"
      using known Some by (simp add: clauseError_def)
    ultimately show ?thesis using v
      by (auto simp: resolveField_def split: if_splits)
  qed
qed

lemma filtersLoop_Inr:
  "filtersLoop rx d True fs = Inr b \<Longrightarrow> b = survives rx fs d"
proof (induction fs)
  case Nil
  then show ?case by (simp add: survives_def)
next
  case (Cons f fs)
  show ?case
  proof (cases f)
    case None
    with Cons show ?thesis by (simp add: survives_def)
  next
    case (Some c)
    from Cons.prems Some have r: "filtersLoop rx d (clauseIncludes rx d c) fs = Inr b"
      by (auto simp only: filtersLoop_Some split: option.splits)
    show ?thesis
    proof (cases "clauseIncludes rx d c")
      case True
      with r Cons.IH have "b = survives rx fs d" by simp
      with True Some show ?thesis by (simp add: survives_def)
    next
      case False
      with r have "b = False" by (simp add: filtersLoop_False)
      with False Some show ?thesis by (simp add: survives_def)
    qed
  qed
qed

lemma filtersLoop_None: "filtersLoop rx d incl (None # fs) = filtersLoop rx d incl fs"
  by simp

declare filtersLoop.simps(2) [simp del]

text \<open>An error of one record is the error of every record that is not excluded first.\<close>

lemma filtersLoop_uniform:
  "filtersLoop rx d True fs = Inl e \<Longrightarrow>
   filtersLoop rx x True fs = Inl e \<or> filtersLoop rx x True fs = Inr False"
proof (induction fs)
  case Nil
  then show ?case by simp
next
  case (Cons f fs)
  show ?case
  proof (cases f)
    case None
    with Cons show ?thesis by (simp add: filtersLoop_None)
  next
    case (Some c)
    show ?thesis
    proof (cases "clauseError rx c")
      case (Some e')
      with Cons.prems \<open>f = Some c\<close> show ?thesis
        by (simp add: filtersLoop_Some)
    next
      case None
      with Cons.prems \<open>f = Some c\<close>
      have r: "filtersLoop rx d (clauseIncludes rx d c) fs = Inl e"
        by (simp add: filtersLoop_Some)
      then have "clauseIncludes rx d c"
        by (cases "clauseIncludes rx d c") (simp_all add: filtersLoop_False)
      with r have "filtersLoop rx d True fs = Inl e" by simp
      from Cons.IH [OF this] show ?thesis
        using None \<open>f = Some c\<close>
        by (cases "clauseIncludes rx x c") (simp_all add: filtersLoop_Some filtersLoop_False)
    qed
  qed
qed

lemma filtersLoop_append:
  "filtersLoop rx d incl fs1 = Inr b \<Longrightarrow>
   filtersLoop rx d incl (fs1 @ fs2) = filtersLoop rx d b fs2"
proof (induction fs1 arbitrary: incl)
  case Nil
  then show ?case by simp
next
  case (Cons f fs1)
  show ?case
  proof (cases incl)
    case False
    with Cons.prems have "b = False" by (simp add: filtersLoop_False)
    with False show ?thesis by (simp add: filtersLoop_False)
  next
    case True
    show ?thesis
    proof (cases f)
      case None
      with Cons show ?thesis by (simp add: filtersLoop_None)
    next
      case (Some c)
      with Cons.prems True
      have "clauseError rx c = None \<and> filtersLoop rx d (clauseIncludes rx d c) fs1 = Inr b"
        by (auto simp only: filtersLoop_Some split: option.splits)
      with Cons.IH Some True show ?thesis
        by (simp add: filtersLoop_Some)
    qed
  qed
qed

text \<open>An error comes from a clause that the record's evaluation reaches.\<close>

lemma filtersLoop_Inl:
  "filtersLoop rx d True fs = Inl e \<Longrightarrow>
   \<exists>fs1 c fs2. fs = fs1 @ Some c # fs2 \<and> filtersLoop rx d True fs1 = Inr True
      \<and> clauseError rx c = Some e"
proof (induction fs)
  case Nil
  then show ?case by simp
next
  case (Cons f fs)
  show ?case
  proof (cases f)
    case None
    with Cons.prems have "filtersLoop rx d True fs = Inl e" by (simp add: filtersLoop_None)
    from Cons.IH [OF this] obtain fs1 c fs2 where
      "fs = fs1 @ Some c # fs2" "filtersLoop rx d True fs1 = Inr True" "clauseError rx c = Some e"
      by blast
    then have "f # fs = (None # fs1) @ Some c # fs2 \<and> filtersLoop rx d True (None # fs1) = Inr True
        \<and> clauseError rx c = Some e"
      using None by (simp add: filtersLoop_None)
    then show ?thesis by blast
  next
    case (Some c)
    show ?thesis
    proof (cases "clauseError rx c")
      case (Some e')
      with Cons.prems \<open>f = Some c\<close> have "e' = e" by (simp add: filtersLoop_Some)
      with Some \<open>f = Some c\<close>
      have "f # fs = [] @ Some c # fs \<and> filtersLoop rx d True [] = Inr True
          \<and> clauseError rx c = Some e"
        by simp
      then show ?thesis by blast
    next
      case None
      with Cons.prems \<open>f = Some c\<close>
      have r: "filtersLoop rx d (clauseIncludes rx d c) fs = Inl e"
        by (simp add: filtersLoop_Some)
      then have inc: "clauseIncludes rx d c"
        by (cases "clauseIncludes rx d c") (simp_all add: filtersLoop_False)
      with r have "filtersLoop rx d True fs = Inl e" by simp
      from Cons.IH [OF this] obtain fs1 c' fs2 where
        *: "fs = fs1 @ Some c' # fs2" "filtersLoop rx d True fs1 = Inr True"
           "clauseError rx c' = Some e"
        by blast
      have "filtersLoop rx d True (Some c # fs1) = Inr True"
        using None inc *(2) by (simp add: filtersLoop_Some)
      with * \<open>f = Some c\<close>
      have "f # fs = (Some c # fs1) @ Some c' # fs2
          \<and> filtersLoop rx d True (Some c # fs1) = Inr True \<and> clauseError rx c' = Some e"
        by simp
      then show ?thesis by blast
    qed
  qed
qed

lemma filtersLoop_reaches:
  assumes "filtersLoop rx d True fs1 = Inr True"
  shows "filtersLoop rx d True (fs1 @ Some c # fs2) =
           (case clauseError rx c of
              Some e \<Rightarrow> Inl e
            | None \<Rightarrow> filtersLoop rx d (clauseIncludes rx d c) fs2)"
  using filtersLoop_append [OF assms, of "Some c # fs2"]
  by (simp add: filtersLoop_Some)

subsection \<open>The loop over the records\<close>

lemma databasesLoop_ok:
  "databasesLoop rx fs acc ds = (out, None) \<Longrightarrow> out = acc @ filter (survives rx fs) ds"
proof (induction ds arbitrary: acc)
  case Nil
  then show ?case by simp
next
  case (Cons d ds)
  from Cons.prems obtain b where b: "filtersLoop rx d True fs = Inr b"
    and r: "databasesLoop rx fs (if b then acc @ [d] else acc) ds = (out, None)"
    by (auto split: sum.splits)
  from b have "b = survives rx fs d" by (rule filtersLoop_Inr)
  with Cons.IH [OF r] show ?case by simp
qed

lemma databasesLoop_fails:
  "d \<in> set ds \<Longrightarrow> filtersLoop rx d True fs = Inl e \<Longrightarrow>
   databasesLoop rx fs acc ds = (acc, Some e)"
proof (induction ds)
  case Nil
  then show ?case by simp
next
  case (Cons x ds)
  from filtersLoop_uniform [OF Cons.prems(2), of x]
  show ?case
  proof
    assume "filtersLoop rx x True fs = Inl e"
    then show ?thesis by simp
  next
    assume x: "filtersLoop rx x True fs = Inr False"
    with Cons.prems have "d \<in> set ds" by auto
    with Cons x show ?thesis by simp
  qed
qed

lemma databasesLoop_err:
  "databasesLoop rx fs acc ds = (out, Some e) \<Longrightarrow>
   \<exists>ds1 d ds2. ds = ds1 @ d # ds2 \<and> (\<forall>x \<in> set ds1. filtersLoop rx x True fs = Inr False)
      \<and> filtersLoop rx d True fs = Inl e"
proof (induction ds arbitrary: acc)
  case Nil
  then show ?case by simp
next
  case (Cons x ds)
  show ?case
  proof (cases "filtersLoop rx x True fs")
    case (Inl e')
    with Cons.prems have "e' = e" by simp
    with Inl have "x # ds = [] @ x # ds \<and> (\<forall>y \<in> set []. filtersLoop rx y True fs = Inr False)
        \<and> filtersLoop rx x True fs = Inl e"
      by simp
    then show ?thesis by blast
  next
    case (Inr b)
    with Cons.prems
    have r: "databasesLoop rx fs (if b then acc @ [x] else acc) ds = (out, Some e)"
      by simp
    from Cons.IH [OF r] obtain ds1 d ds2 where
      *: "ds = ds1 @ d # ds2" "\<forall>y \<in> set ds1. filtersLoop rx y True fs = Inr False"
         "filtersLoop rx d True fs = Inl e"
      by blast
    from filtersLoop_uniform [OF *(3), of x] Inr have "b = False" by auto
    with Inr * have "x # ds = (x # ds1) @ d # ds2
        \<and> (\<forall>y \<in> set (x # ds1). filtersLoop rx y True fs = Inr False)
        \<and> filtersLoop rx d True fs = Inl e"
      by simp
    then show ?thesis by blast
  qed
qed

lemma databasesLoop_no_filters: "databasesLoop rx [] acc ds = (acc @ ds, None)"
  by (induction ds arbitrary: acc) simp_all

subsection \<open>applyFilterOnDatabases\<close>

lemma applyFilter_empty:
  "elems databases = [] \<Longrightarrow> applyFilterOnDatabases rx databases fs = (databases, None)"
  by (simp add: applyFilterOnDatabases_def)

lemma applyFilter_ok:
  assumes "applyFilterOnDatabases rx databases fs = (out, None)"
  shows "elems out = filter (survives rx fs) (elems databases)"
proof (cases "elems databases = []")
  case True
  with assms show ?thesis by (simp add: applyFilterOnDatabases_def)
next
  case False
  with assms obtain xs where "databasesLoop rx fs [] (elems databases) = (xs, None)"
    and "out = Some xs"
    by (auto simp: applyFilterOnDatabases_def split: prod.splits)
  then show ?thesis
    using databasesLoop_ok [of rx fs "[]" "elems databases" xs]
    by (simp add: elems_def)
qed

lemma applyFilter_fails:
  assumes "d \<in> set (elems databases)" and "filtersLoop rx d True fs = Inl e"
  shows "applyFilterOnDatabases rx databases fs = (Some [], Some e)"
proof -
  from assms(1) have "elems databases \<noteq> []" by auto
  then show ?thesis
    using databasesLoop_fails [OF assms, of "[]"]
    by (simp add: applyFilterOnDatabases_def)
qed

lemma applyFilter_err:
  assumes "applyFilterOnDatabases rx databases fs = (out, Some e)"
  shows "out = Some [] \<and>
         (\<exists>ds1 d ds2. elems databases = ds1 @ d # ds2
            \<and> (\<forall>x \<in> set ds1. filtersLoop rx x True fs = Inr False)
            \<and> filtersLoop rx d True fs = Inl e)"
proof -
  from assms have ne: "elems databases \<noteq> []"
    by (auto simp: applyFilterOnDatabases_def split: if_splits)
  with assms obtain xs where l: "databasesLoop rx fs [] (elems databases) = (xs, Some e)"
    and out: "out = Some xs"
    by (auto simp: applyFilterOnDatabases_def split: prod.splits)
  from databasesLoop_err [OF l] obtain ds1 d ds2 where
    *: "elems databases = ds1 @ d # ds2" "\<forall>x \<in> set ds1. filtersLoop rx x True fs = Inr False"
       "filtersLoop rx d True fs = Inl e"
    by blast
  then have "d \<in> set (elems databases)" by simp
  from applyFilter_fails [OF this *(3)] assms out have "out = Some []" by simp
  with * show ?thesis by blast
qed

lemma survives_excluded:
  "Some c \<in> set fs \<Longrightarrow> \<not> clauseIncludes rx d c \<Longrightarrow> \<not> survives rx fs d"
  by (auto simp: survives_def list_all_iff intro!: bexI [of _ "Some c"])

lemma read_fails:
  assumes "d \<in> set (elems databases)" and "filtersLoop rx d True fs = Inl e"
  shows "dataSourceSqlDatabasesRead rx project databases (r\<lparr>rd_filters := fs\<rparr>)
           = (r\<lparr>rd_filters := fs\<rparr>, Some e)"
proof -
  from assms(2) have "fs \<noteq> []" by auto
  then show ?thesis
    using applyFilter_fails [OF assms]
    by (simp add: dataSourceSqlDatabasesRead_def)
qed

lemma applyFilter_no_filters: "applyFilterOnDatabases rx databases [] = (databases, None)"
  by (cases databases) (simp_all add: applyFilterOnDatabases_def elems_def databasesLoop_no_filters)

lemma neutral_clauseError:
  assumes "filter_name c = ''name'' \<or> filter_name c = ''charset'' \<or> filter_name c = ''collation''"
    and "filter_values c = []" and "filter_exclude_values c = []"
  shows "clauseError rx c = None"
  using assms by (auto simp: clauseError_def firstMalformed_def)

lemma neutral_clauseIncludes:
  assumes "filter_name c = ''name'' \<or> filter_name c = ''charset'' \<or> filter_name c = ''collation''"
    and "filter_values c = []" and "filter_exclude_values c = []"
  shows "clauseIncludes rx d c"
  using assms by (auto simp: clauseIncludes_def resolveField_def)

lemma neutral_filtersLoop:
  assumes "clauseError rx c = None" and "clauseIncludes rx d c"
  shows "filtersLoop rx d incl (fs1 @ Some c # fs2) = filtersLoop rx d incl (fs1 @ fs2)"
proof (induction fs1 arbitrary: incl)
  case Nil
  show ?case
    using assms by (cases incl) (simp_all add: filtersLoop_Some filtersLoop_False)
next
  case (Cons f fs1)
  show ?case
  proof (cases incl)
    case False
    then show ?thesis by (simp add: filtersLoop_False)
  next
    case True
    then show ?thesis
      by (cases f) (simp_all add: filtersLoop_Some filtersLoop_None Cons.IH split: option.splits)
  qed
qed

lemma neutral_databasesLoop:
  assumes "clauseError rx c = None" and "\<And>d. clauseIncludes rx d c"
  shows "databasesLoop rx (fs1 @ Some c # fs2) acc ds = databasesLoop rx (fs1 @ fs2) acc ds"
  by (induction ds arbitrary: acc) (simp_all add: neutral_filtersLoop [OF assms] split: sum.splits)

lemma flattenLoop_eq: "flattenLoop acc ds = acc @ map flattenDatabase ds"
  by (induction ds arbitrary: acc) simp_all

lemma flattenDatabases_eq:
  "flattenDatabases fetched = Some (map flattenDatabase (elems fetched))"
  by (cases fetched) (simp_all add: flattenDatabases_def elems_def flattenLoop_eq)

lemma filtersLoop_excluded:
  "filtersLoop rx d True fs1 = Inr False \<Longrightarrow> filtersLoop rx d True (fs1 @ fs2) = Inr False"
  using filtersLoop_append [of rx d True fs1 False fs2] by (simp add: filtersLoop_False)

lemma mismatchLine_nonempty: "mismatchLine k a e \<noteq> []"
  by (simp add: mismatchLine_def)

lemma fieldsLoop_eq:
  "fieldsLoop dsAttr rsAttr ignoreFields index errMsg ks =
     (if \<exists>k \<in> set ks. k = [] \<and> fieldCompared ignoreFields k \<and> dsField dsAttr index k \<noteq> attr rsAttr k
      then None
      else Some (errMsg @ concat (map (\<lambda>k. mismatchLine k (dsField dsAttr index k) (attr rsAttr k))
                                   (mismatches dsAttr rsAttr ignoreFields index ks))))"
proof (induction ks arbitrary: errMsg)
  case Nil
  then show ?case by (simp add: mismatches_def)
next
  case (Cons k ks)
  have step: "fieldsLoop dsAttr rsAttr ignoreFields index errMsg (k # ks) =
      (if fieldCompared ignoreFields k \<and> \<not> fieldAgrees k (dsField dsAttr index k) (attr rsAttr k)
       then (if k = [] then None
             else fieldsLoop dsAttr rsAttr ignoreFields index
                    (errMsg @ mismatchLine k (dsField dsAttr index k) (attr rsAttr k)) ks)
       else fieldsLoop dsAttr rsAttr ignoreFields index errMsg ks)"
    by (auto simp: fieldCompared_def fieldAgrees_def isEmptyRepr_def dsField_def mismatchLine_def)
  have empty_key: "fieldAgrees [] a e \<longleftrightarrow> a = e" for a e
    by (simp add: fieldAgrees_def)
  show ?case
    unfolding step Cons.IH
    by (auto simp: mismatches_def empty_key)
qed

subsection \<open>The index loop and the comparison loop\<close>

lemma digit_char_not_minus: "(n::nat) < 10 \<Longrightarrow> char_of (48 + n) \<noteq> CHR ''-''"
proof
  assume n: "n < 10" and "char_of (48 + n) = CHR ''-''"
  then have "(of_char (char_of (48 + n)) :: nat) = of_char CHR ''-''"
    by simp
  with n show False by simp
qed

lemma digitsOf_head: "digitsOf n \<noteq> [] \<and> hd (digitsOf n) \<noteq> CHR ''-''"
proof (induction n rule: digitsOf.induct)
  case (1 n)
  show ?case
  proof (cases "n < 10")
    case True
    then show ?thesis
      by (simp add: digitsOf.simps [of n] digit_char_not_minus)
  next
    case False
    with "1.IH" show ?thesis
      by (simp add: digitsOf.simps [of n])
  qed
qed

lemma Itoa_not_sentinel: "0 \<le> i \<Longrightarrow> Itoa i \<noteq> ''-1''"
proof
  assume "0 \<le> i" and "Itoa i = ''-1''"
  then have "hd (digitsOf (nat i)) = CHR ''-''"
    by (simp add: Itoa_def)
  with digitsOf_head [of "nat i"] show False by simp
qed

lemma indexLoop_cases:
  "(indexLoop dsAttr rsAttr n i idx = idx \<and> (\<forall>j. i \<le> j \<and> j < n \<longrightarrow> \<not> entryNamed dsAttr rsAttr j))
   \<or> (\<exists>j. i \<le> j \<and> j < n \<and> entryNamed dsAttr rsAttr j
          \<and> (\<forall>j'. j < j' \<and> j' < n \<longrightarrow> \<not> entryNamed dsAttr rsAttr j')
          \<and> indexLoop dsAttr rsAttr n i idx = Itoa j)"
proof (induction dsAttr rsAttr n i idx rule: indexLoop.induct)
  case (1 dsAttr rsAttr n i idx)
  show ?case
  proof (cases "i < n")
    case False
    then have "indexLoop dsAttr rsAttr n i idx = idx"
      by (simp add: indexLoop.simps [of dsAttr rsAttr n i idx])
    moreover from False have "\<forall>j. i \<le> j \<and> j < n \<longrightarrow> \<not> entryNamed dsAttr rsAttr j"
      by auto
    ultimately show ?thesis by blast
  next
    case True
    let ?idx' = "if entryNamed dsAttr rsAttr i then Itoa i else idx"
    have step: "indexLoop dsAttr rsAttr n i idx = indexLoop dsAttr rsAttr n (i + 1) ?idx'"
      using True by (simp add: indexLoop.simps [of dsAttr rsAttr n i idx] entryNamed_def)
    from "1.IH" [OF True]
    have "(indexLoop dsAttr rsAttr n (i + 1) ?idx' = ?idx'
            \<and> (\<forall>j. i + 1 \<le> j \<and> j < n \<longrightarrow> \<not> entryNamed dsAttr rsAttr j))
        \<or> (\<exists>j. i + 1 \<le> j \<and> j < n \<and> entryNamed dsAttr rsAttr j
              \<and> (\<forall>j'. j < j' \<and> j' < n \<longrightarrow> \<not> entryNamed dsAttr rsAttr j')
              \<and> indexLoop dsAttr rsAttr n (i + 1) ?idx' = Itoa j)"
      by (simp add: entryNamed_def)
    then show ?thesis
    proof
      assume a: "indexLoop dsAttr rsAttr n (i + 1) ?idx' = ?idx'
            \<and> (\<forall>j. i + 1 \<le> j \<and> j < n \<longrightarrow> \<not> entryNamed dsAttr rsAttr j)"
      show ?thesis
      proof (cases "entryNamed dsAttr rsAttr i")
        case True
        with a step \<open>i < n\<close>
        have "i \<le> i \<and> i < n \<and> entryNamed dsAttr rsAttr i
          \<and> (\<forall>j'. i < j' \<and> j' < n \<longrightarrow> \<not> entryNamed dsAttr rsAttr j')
          \<and> indexLoop dsAttr rsAttr n i idx = Itoa i"
          by simp
        then show ?thesis by blast
      next
        case False
        have "\<forall>j. i \<le> j \<and> j < n \<longrightarrow> \<not> entryNamed dsAttr rsAttr j"
        proof (intro allI impI)
          fix j assume "i \<le> j \<and> j < n"
          then have "j = i \<or> (i + 1 \<le> j \<and> j < n)" by auto
          with False a show "\<not> entryNamed dsAttr rsAttr j" by blast
        qed
        with a step False show ?thesis by simp
      qed
    next
      assume "\<exists>j. i + 1 \<le> j \<and> j < n \<and> entryNamed dsAttr rsAttr j
              \<and> (\<forall>j'. j < j' \<and> j' < n \<longrightarrow> \<not> entryNamed dsAttr rsAttr j')
              \<and> indexLoop dsAttr rsAttr n (i + 1) ?idx' = Itoa j"
      then obtain j where "i + 1 \<le> j" "j < n" "entryNamed dsAttr rsAttr j"
        "\<forall>j'. j < j' \<and> j' < n \<longrightarrow> \<not> entryNamed dsAttr rsAttr j'"
        "indexLoop dsAttr rsAttr n (i + 1) ?idx' = Itoa j"
        by blast
      with step have "i \<le> j \<and> j < n \<and> entryNamed dsAttr rsAttr j
          \<and> (\<forall>j'. j < j' \<and> j' < n \<longrightarrow> \<not> entryNamed dsAttr rsAttr j')
          \<and> indexLoop dsAttr rsAttr n i idx = Itoa j"
        by simp
      then show ?thesis by blast
    qed
  qed
qed

text \<open>The index is the decimal position of the last entry named like the expected record.\<close>

lemma indexLoop_located:
  assumes "lastEntryNamed dsAttr rsAttr n i"
  shows "indexLoop dsAttr rsAttr n 0 ''-1'' = Itoa i"
proof -
  from assms have i: "0 \<le> i" "i < n" "entryNamed dsAttr rsAttr i"
    and last: "\<forall>j. i < j \<and> j < n \<longrightarrow> \<not> entryNamed dsAttr rsAttr j"
    by (auto simp: lastEntryNamed_def list_all_iff)
  from indexLoop_cases [of dsAttr rsAttr n 0 "''-1''"] i
  obtain j where j: "0 \<le> j" "j < n" "entryNamed dsAttr rsAttr j"
    "\<forall>j'. j < j' \<and> j' < n \<longrightarrow> \<not> entryNamed dsAttr rsAttr j'"
    "indexLoop dsAttr rsAttr n 0 ''-1'' = Itoa j"
    by blast
  from i j last have "\<not> i < j" "\<not> j < i" by blast+
  then have "j = i" by simp
  with j show ?thesis by simp
qed

lemma indexLoop_missing:
  assumes "noEntryNamed dsAttr rsAttr n"
  shows "indexLoop dsAttr rsAttr n 0 ''-1'' = ''-1''"
  using indexLoop_cases [of dsAttr rsAttr n 0 "''-1''"] assms
  by (auto simp: noEntryNamed_def list_all_iff)

lemma indexLoop_found:
  assumes "indexLoop dsAttr rsAttr n 0 ''-1'' \<noteq> ''-1''"
  shows "\<exists>i. lastEntryNamed dsAttr rsAttr n i"
proof -
  from indexLoop_cases [of dsAttr rsAttr n 0 "''-1''"] assms
  obtain j where "0 \<le> j" "j < n" "entryNamed dsAttr rsAttr j"
    "\<forall>j'. j < j' \<and> j' < n \<longrightarrow> \<not> entryNamed dsAttr rsAttr j'"
    by blast
  then have "lastEntryNamed dsAttr rsAttr n j"
    by (auto simp: lastEntryNamed_def list_all_iff)
  then show ?thesis ..
qed



lemma indexLoop_sentinel:
  "indexLoop dsAttr rsAttr n 0 ''-1'' = ''-1'' \<longleftrightarrow> \<not> (\<exists>i. lastEntryNamed dsAttr rsAttr n i)"
proof
  assume s: "indexLoop dsAttr rsAttr n 0 ''-1'' = ''-1''"
  show "\<not> (\<exists>i. lastEntryNamed dsAttr rsAttr n i)"
  proof
    assume "\<exists>i. lastEntryNamed dsAttr rsAttr n i"
    then obtain i where i: "lastEntryNamed dsAttr rsAttr n i" ..
    then have "0 \<le> i" by (simp add: lastEntryNamed_def)
    with indexLoop_located [OF i] s Itoa_not_sentinel [of i] show False by simp
  qed
next
  assume "\<not> (\<exists>i. lastEntryNamed dsAttr rsAttr n i)"
  with indexLoop_found [of dsAttr rsAttr n] show "indexLoop dsAttr rsAttr n 0 ''-1'' = ''-1''"
    by blast
qed

text \<open>The comparison stage, once the count is parsed and the entry located.\<close>

lemma check_located:
  assumes "Atoi (attr dsAttr ''databases.#'') = Some n"
    and "lastEntryNamed dsAttr rsAttr n i"
  shows "checkDatabaseFieldsMatchForDataSourceStateAndResourceState dsAttr rsAttr order ignoreFields
      = (if \<exists>k \<in> set order. k = [] \<and> fieldCompared ignoreFields k
               \<and> dsField dsAttr (Itoa i) k \<noteq> attr rsAttr k
         then Panics
         else if mismatches dsAttr rsAttr ignoreFields (Itoa i) order = [] then Returns None
         else Returns (Some (concat (map (\<lambda>k. mismatchLine k (dsField dsAttr (Itoa i) k) (attr rsAttr k))
                                      (mismatches dsAttr rsAttr ignoreFields (Itoa i) order)))))"
proof -
  let ?ms = "mismatches dsAttr rsAttr ignoreFields (Itoa i) order"
  have idx: "indexLoop dsAttr rsAttr n 0 ''-1'' = Itoa i"
    using assms(2) by (rule indexLoop_located)
  from assms(2) have "0 \<le> i" by (simp add: lastEntryNamed_def)
  then have ns: "Itoa i \<noteq> ''-1''" by (rule Itoa_not_sentinel)
  have msg: "concat (map (\<lambda>k. mismatchLine k (dsField dsAttr (Itoa i) k) (attr rsAttr k)) ?ms) = []
      \<longleftrightarrow> ?ms = []"
    by (cases ?ms) (simp_all add: mismatchLine_nonempty)
  show ?thesis
    using assms(1) ns msg
    by (simp add: checkDatabaseFieldsMatchForDataSourceStateAndResourceState_def idx fieldsLoop_eq)
qed

lemma mismatches_empty:
  assumes "set order = dom rsAttr"
  shows "mismatches dsAttr rsAttr ignoreFields index order = []
     \<longleftrightarrow> (\<forall>k \<in> dom rsAttr. k \<notin> ignoreFields \<and> k \<noteq> ''%''
            \<longrightarrow> fieldAgrees k (dsField dsAttr index k) (attr rsAttr k))"
  using assms by (auto simp: mismatches_def filter_empty_conv fieldCompared_def)

lemma panic_is_mismatch:
  assumes "\<exists>k \<in> set order. k = [] \<and> fieldCompared ignoreFields k
               \<and> dsField dsAttr index k \<noteq> attr rsAttr k"
  shows "mismatches dsAttr rsAttr ignoreFields index order \<noteq> []"
  using assms by (auto simp: mismatches_def filter_empty_conv fieldAgrees_def)

section \<open>The claims\<close>

text \<open>
  Claim C1 (exclude dominance). When \<^verbatim>\<open>applyFilterOnDatabases\<close> returns without error,
  a record \<open>d\<close> of the input for which some pattern of some clause's
  \<^verbatim>\<open>exclude_values\<close> matches the field that the clause names is not in the output.
  Nothing is assumed about the include patterns of that clause or of any other clause.
\<close>
theorem exclude_dominance:
  assumes "applyFilterOnDatabases rx databases databaseFilters = (out, None)"
    and "d \<in> set (elems databases)"
    and "Some c \<in> set databaseFilters"
    and "resolveField (filter_name c) d = Some v"
    and "p \<in> set (filter_exclude_values c)"
    and "matches rx p v"
  shows "d \<notin> set (elems out)"
proof -
  from assms(4-6) have "\<not> clauseIncludes rx d c"
    by (auto simp: clauseIncludes_def)
  with assms(3) have "\<not> survives rx databaseFilters d"
    by (rule survives_excluded)
  then show ?thesis
    using applyFilter_ok [OF assms(1)] by simp
qed

text \<open>
  On the records \<^verbatim>\<open>mysql-db1\<close>, \<^verbatim>\<open>mysql-db2\<close> and the clause of the name-filter test,
  \<^verbatim>\<open>mysql-db2\<close> matches the exclude pattern \<^verbatim>\<open>.*2\<close> and the include pattern
  \<^verbatim>\<open>.*[0-9]\<close>, and is excluded.
\<close>
theorem exclude_dominance_witness:
  "applyFilterOnDatabases goRegexp
       (Some [exampleDb ''mysql-db1'' ''utf8'', exampleDb ''mysql-db2'' ''utf8''])
       [Some nameFilter]
     = (Some [exampleDb ''mysql-db1'' ''utf8''], None)
   \<and> exampleDb ''mysql-db2'' ''utf8''
       \<in> set (elems (Some [exampleDb ''mysql-db1'' ''utf8'', exampleDb ''mysql-db2'' ''utf8'']))
   \<and> Some nameFilter \<in> set [Some nameFilter]
   \<and> resolveField (filter_name nameFilter) (exampleDb ''mysql-db2'' ''utf8'') = Some ''mysql-db2''
   \<and> ''.*2'' \<in> set (filter_exclude_values nameFilter)
   \<and> matches goRegexp ''.*2'' ''mysql-db2''
   \<and> matches goRegexp ''.*[0-9]'' ''mysql-db2''
   \<and> exampleDb ''mysql-db2'' ''utf8'' \<notin> set (elems (Some [exampleDb ''mysql-db1'' ''utf8'']))"
proof -
  have h1: "applyFilterOnDatabases goRegexp
       (Some [exampleDb ''mysql-db1'' ''utf8'', exampleDb ''mysql-db2'' ''utf8''])
       [Some nameFilter]
     = (Some [exampleDb ''mysql-db1'' ''utf8''], None)"
    by code_simp
  have h2: "exampleDb ''mysql-db2'' ''utf8''
       \<in> set (elems (Some [exampleDb ''mysql-db1'' ''utf8'', exampleDb ''mysql-db2'' ''utf8'']))"
    by (simp add: elems_def)
  have h3: "Some nameFilter \<in> set [Some nameFilter]"
    by simp
  have h4: "resolveField (filter_name nameFilter) (exampleDb ''mysql-db2'' ''utf8'') = Some ''mysql-db2''"
    by (simp add: resolveField_def nameFilter_def exampleDb_def)
  have h5: "''.*2'' \<in> set (filter_exclude_values nameFilter)"
    by (simp add: nameFilter_def)
  have h6: "matches goRegexp ''.*2'' ''mysql-db2''"
    by code_simp
  have h7: "matches goRegexp ''.*[0-9]'' ''mysql-db2''"
    by code_simp
  from exclude_dominance [OF h1 h2 h3 h4 h5 h6] h1 h2 h3 h4 h5 h6 h7
  show ?thesis by blast
qed

text \<open>
  Claim C2 (the output is the ordered subsequence of survivors). When
  \<^verbatim>\<open>applyFilterOnDatabases\<close> succeeds, the returned sequence is the input sequence
  filtered by "every clause includes the record", in the input's order: its length is
  the number of such records, and it is a subsequence of the input, so no record is
  duplicated or reordered.
\<close>
theorem filter_output_is_surviving_subsequence:
  assumes "applyFilterOnDatabases rx databases databaseFilters = (out, None)"
  shows "elems out = filter (survives rx databaseFilters) (elems databases)
       \<and> length (elems out) = length (filter (survives rx databaseFilters) (elems databases))
       \<and> subseq (elems out) (elems databases)"
  using applyFilter_ok [OF assms] by simp

text \<open>The three records of the name-filter test: only \<^verbatim>\<open>mysql-db1\<close> survives.\<close>
theorem filter_output_is_surviving_subsequence_witness:
  "applyFilterOnDatabases goRegexp
       (Some [exampleDb ''mysql-db1'' ''utf8'', exampleDb ''mysql-db2'' ''utf8'',
              exampleDb ''mysql-db3'' ''utf8''])
       [Some nameFilter]
     = (Some [exampleDb ''mysql-db1'' ''utf8''], None)
   \<and> filter (survives goRegexp [Some nameFilter])
         [exampleDb ''mysql-db1'' ''utf8'', exampleDb ''mysql-db2'' ''utf8'',
          exampleDb ''mysql-db3'' ''utf8'']
       = [exampleDb ''mysql-db1'' ''utf8'']"
proof -
  have h1: "applyFilterOnDatabases goRegexp
       (Some [exampleDb ''mysql-db1'' ''utf8'', exampleDb ''mysql-db2'' ''utf8'',
              exampleDb ''mysql-db3'' ''utf8''])
       [Some nameFilter]
     = (Some [exampleDb ''mysql-db1'' ''utf8''], None)"
    by code_simp
  from filter_output_is_surviving_subsequence [OF h1] h1
  show ?thesis by (simp add: elems_def)
qed

text \<open>
  Claim C3 (malformed pattern), as the code has it. A malformed pattern fails the
  invocation when the evaluation of some record \<open>d\<close> reaches its clause \<open>c\<close>: the
  clauses \<open>fs1\<close> before \<open>c\<close> are \<^verbatim>\<open>nil\<close> or leave \<^verbatim>\<open>include\<close> true without error, and
  \<open>c\<close> names a recognised field. Then \<^verbatim>\<open>applyFilterOnDatabases\<close> returns the error
  \<^verbatim>\<open>Invalid regex q\<close>, where \<open>q\<close> is the first malformed pattern of \<open>c\<close> (the
  \<^verbatim>\<open>values\<close> before the \<^verbatim>\<open>exclude_values\<close>), so the pattern is not treated as "no
  match"; the read operation returns this error and leaves the resource data as it was,
  with no \<^verbatim>\<open>databases\<close> set.
\<close>
theorem malformed_regex_fails_when_reached:
  assumes "d \<in> set (elems databases)"
    and "filtersLoop rx d True fs1 = Inr True"
    and "filter_name c = ''name'' \<or> filter_name c = ''charset'' \<or> filter_name c = ''collation''"
    and "p \<in> set (filter_values c @ filter_exclude_values c)"
    and "malformed rx p"
  shows "\<exists>q. firstMalformed rx (filter_values c @ filter_exclude_values c) = Some q
            \<and> malformed rx q
            \<and> applyFilterOnDatabases rx databases (fs1 @ Some c # fs2)
                = (Some [], Some (''Invalid regex '' @ q))
            \<and> dataSourceSqlDatabasesRead rx project databases
                  (r\<lparr>rd_filters := fs1 @ Some c # fs2\<rparr>)
                = (r\<lparr>rd_filters := fs1 @ Some c # fs2\<rparr>, Some (''Invalid regex '' @ q))"
proof -
  from assms(4,5) obtain q where
    q: "firstMalformed rx (filter_values c @ filter_exclude_values c) = Some q"
    using firstMalformed_None [of rx "filter_values c @ filter_exclude_values c"]
    by (cases "firstMalformed rx (filter_values c @ filter_exclude_values c)") auto
  then have mq: "malformed rx q"
    using firstMalformed_Some by blast
  from q assms(3) have "clauseError rx c = Some (''Invalid regex '' @ q)"
    by (auto simp: clauseError_def)
  then have l: "filtersLoop rx d True (fs1 @ Some c # fs2) = Inl (''Invalid regex '' @ q)"
    using filtersLoop_reaches [OF assms(2), of c fs2] by simp
  show ?thesis
    using q mq applyFilter_fails [OF assms(1) l] read_fails [OF assms(1) l] by blast
qed

text \<open>
  \<^verbatim>\<open>mysql-db1\<close> passes the clause \<^verbatim>\<open>.*1\<close> and reaches the clause with the pattern
  \<^verbatim>\<open>[0-9\<close>, which has no closing bracket.
\<close>
theorem malformed_regex_fails_when_reached_witness:
  "exampleDb ''mysql-db1'' ''utf8''
       \<in> set (elems (Some [exampleDb ''mysql-db2'' ''utf8'', exampleDb ''mysql-db1'' ''utf8'']))
   \<and> filtersLoop goRegexp (exampleDb ''mysql-db1'' ''utf8'') True [Some onlyOneFilter] = Inr True
   \<and> (filter_name badRegexFilter = ''name'' \<or> filter_name badRegexFilter = ''charset''
        \<or> filter_name badRegexFilter = ''collation'')
   \<and> ''[0-9'' \<in> set (filter_values badRegexFilter @ filter_exclude_values badRegexFilter)
   \<and> malformed goRegexp ''[0-9''
   \<and> applyFilterOnDatabases goRegexp
         (Some [exampleDb ''mysql-db2'' ''utf8'', exampleDb ''mysql-db1'' ''utf8''])
         ([Some onlyOneFilter] @ Some badRegexFilter # [Some nameFilter])
       = (Some [], Some ''Invalid regex [0-9'')
   \<and> dataSourceSqlDatabasesRead goRegexp ''proj''
         (Some [exampleDb ''mysql-db2'' ''utf8'', exampleDb ''mysql-db1'' ''utf8''])
         ((exampleData [])\<lparr>rd_filters := [Some onlyOneFilter] @ Some badRegexFilter # [Some nameFilter]\<rparr>)
       = ((exampleData [])\<lparr>rd_filters := [Some onlyOneFilter] @ Some badRegexFilter # [Some nameFilter]\<rparr>,
          Some ''Invalid regex [0-9'')"
proof -
  have h1: "exampleDb ''mysql-db1'' ''utf8''
       \<in> set (elems (Some [exampleDb ''mysql-db2'' ''utf8'', exampleDb ''mysql-db1'' ''utf8'']))"
    by (simp add: elems_def)
  have h2: "filtersLoop goRegexp (exampleDb ''mysql-db1'' ''utf8'') True [Some onlyOneFilter] = Inr True"
    by code_simp
  have h3: "filter_name badRegexFilter = ''name'' \<or> filter_name badRegexFilter = ''charset''
        \<or> filter_name badRegexFilter = ''collation''"
    by (simp add: badRegexFilter_def)
  have h4: "''[0-9'' \<in> set (filter_values badRegexFilter @ filter_exclude_values badRegexFilter)"
    by (simp add: badRegexFilter_def)
  have h5: "malformed goRegexp ''[0-9''"
    by code_simp
  have fm: "firstMalformed goRegexp (filter_values badRegexFilter @ filter_exclude_values badRegexFilter)
      = Some ''[0-9''"
    by code_simp
  from malformed_regex_fails_when_reached [OF h1 h2 h3 h4 h5, of "[Some nameFilter]" "''proj''" "exampleData []"]
  obtain q where
    q: "firstMalformed goRegexp (filter_values badRegexFilter @ filter_exclude_values badRegexFilter) = Some q"
    and a: "applyFilterOnDatabases goRegexp
         (Some [exampleDb ''mysql-db2'' ''utf8'', exampleDb ''mysql-db1'' ''utf8''])
         ([Some onlyOneFilter] @ Some badRegexFilter # [Some nameFilter])
       = (Some [], Some (''Invalid regex '' @ q))"
    and r: "dataSourceSqlDatabasesRead goRegexp ''proj''
         (Some [exampleDb ''mysql-db2'' ''utf8'', exampleDb ''mysql-db1'' ''utf8''])
         ((exampleData [])\<lparr>rd_filters := [Some onlyOneFilter] @ Some badRegexFilter # [Some nameFilter]\<rparr>)
       = ((exampleData [])\<lparr>rd_filters := [Some onlyOneFilter] @ Some badRegexFilter # [Some nameFilter]\<rparr>,
          Some (''Invalid regex '' @ q))"
    by blast
  from q fm have "q = ''[0-9''" by simp
  with a r h1 h2 h3 h4 h5 show ?thesis by simp
qed

text \<open>
  The claim as stated, for every record sequence, fails: with no records, or when the
  only record is excluded by an earlier clause, a clause with the malformed pattern
  \<^verbatim>\<open>[0-9\<close> raises no error, and the read operation succeeds and sets an empty list.
\<close>
theorem malformed_regex_counterexample:
  "malformed goRegexp ''[0-9''
   \<and> applyFilterOnDatabases goRegexp (Some []) [Some badRegexFilter] = (Some [], None)
   \<and> applyFilterOnDatabases goRegexp (Some [exampleDb ''mysql-db2'' ''utf8''])
         [Some onlyOneFilter, Some badRegexFilter]
       = (Some [], None)
   \<and> dataSourceSqlDatabasesRead goRegexp ''proj'' (Some [exampleDb ''mysql-db2'' ''utf8''])
         (exampleData [Some onlyOneFilter, Some badRegexFilter])
       = ((exampleData [Some onlyOneFilter, Some badRegexFilter])
            \<lparr>rd_databases := Some [], rd_id := ''projects/proj/instances/main/101''\<rparr>, None)"
proof -
  have m: "malformed goRegexp ''[0-9''"
    by code_simp
  have a: "applyFilterOnDatabases goRegexp (Some []) [Some badRegexFilter] = (Some [], None)"
    by code_simp
  have b: "applyFilterOnDatabases goRegexp (Some [exampleDb ''mysql-db2'' ''utf8''])
         [Some onlyOneFilter, Some badRegexFilter]
       = (Some [], None)"
    by code_simp
  have "dataSourceSqlDatabasesRead goRegexp ''proj'' (Some [exampleDb ''mysql-db2'' ''utf8''])
         (exampleData [Some onlyOneFilter, Some badRegexFilter])
       = ((exampleData [Some onlyOneFilter, Some badRegexFilter])
            \<lparr>rd_databases := Some [], rd_id := ''projects/proj/instances/main/101''\<rparr>, None)"
    by (simp add: dataSourceSqlDatabasesRead_def exampleData_def b flattenDatabases_def)
  with m a b show ?thesis by simp
qed

text \<open>
  Claim C4 (unrecognised field name), as the code has it. When the evaluation of some
  record \<open>d\<close> reaches a clause \<open>c\<close> whose field name is none of \<^verbatim>\<open>name\<close>,
  \<^verbatim>\<open>charset\<close>, \<^verbatim>\<open>collation\<close>, \<^verbatim>\<open>applyFilterOnDatabases\<close> fails the whole operation
  (no record is returned, none is skipped) with the fixed message \<^verbatim>\<open>Invalid filter\<close>,
  and the read operation returns that error without setting \<^verbatim>\<open>databases\<close>.
\<close>
theorem unknown_field_fails_when_reached:
  assumes "d \<in> set (elems databases)"
    and "filtersLoop rx d True fs1 = Inr True"
    and "filter_name c \<noteq> ''name'' \<and> filter_name c \<noteq> ''charset'' \<and> filter_name c \<noteq> ''collation''"
  shows "applyFilterOnDatabases rx databases (fs1 @ Some c # fs2) = (Some [], Some ''Invalid filter'')
       \<and> dataSourceSqlDatabasesRead rx project databases (r\<lparr>rd_filters := fs1 @ Some c # fs2\<rparr>)
           = (r\<lparr>rd_filters := fs1 @ Some c # fs2\<rparr>, Some ''Invalid filter'')"
proof -
  from assms(3) have "clauseError rx c = Some ''Invalid filter''"
    by (simp add: clauseError_def)
  then have l: "filtersLoop rx d True (fs1 @ Some c # fs2) = Inl ''Invalid filter''"
    using filtersLoop_reaches [OF assms(2), of c fs2] by simp
  show ?thesis
    using applyFilter_fails [OF assms(1) l] read_fails [OF assms(1) l] by simp
qed

text \<open>\<^verbatim>\<open>mysql-db1\<close> passes the clause \<^verbatim>\<open>.*1\<close> and reaches a clause on the field \<^verbatim>\<open>size\<close>.\<close>
theorem unknown_field_fails_when_reached_witness:
  "exampleDb ''mysql-db1'' ''utf8''
       \<in> set (elems (Some [exampleDb ''mysql-db2'' ''utf8'', exampleDb ''mysql-db1'' ''utf8'']))
   \<and> filtersLoop goRegexp (exampleDb ''mysql-db1'' ''utf8'') True [Some onlyOneFilter] = Inr True
   \<and> (filter_name sizeFilter \<noteq> ''name'' \<and> filter_name sizeFilter \<noteq> ''charset''
        \<and> filter_name sizeFilter \<noteq> ''collation'')
   \<and> applyFilterOnDatabases goRegexp
         (Some [exampleDb ''mysql-db2'' ''utf8'', exampleDb ''mysql-db1'' ''utf8''])
         ([Some onlyOneFilter] @ Some sizeFilter # [])
       = (Some [], Some ''Invalid filter'')
   \<and> dataSourceSqlDatabasesRead goRegexp ''proj''
         (Some [exampleDb ''mysql-db2'' ''utf8'', exampleDb ''mysql-db1'' ''utf8''])
         ((exampleData [])\<lparr>rd_filters := [Some onlyOneFilter] @ Some sizeFilter # []\<rparr>)
       = ((exampleData [])\<lparr>rd_filters := [Some onlyOneFilter] @ Some sizeFilter # []\<rparr>,
          Some ''Invalid filter'')"
proof -
  have h1: "exampleDb ''mysql-db1'' ''utf8''
       \<in> set (elems (Some [exampleDb ''mysql-db2'' ''utf8'', exampleDb ''mysql-db1'' ''utf8'']))"
    by (simp add: elems_def)
  have h2: "filtersLoop goRegexp (exampleDb ''mysql-db1'' ''utf8'') True [Some onlyOneFilter] = Inr True"
    by code_simp
  have h3: "filter_name sizeFilter \<noteq> ''name'' \<and> filter_name sizeFilter \<noteq> ''charset''
        \<and> filter_name sizeFilter \<noteq> ''collation''"
    by (simp add: sizeFilter_def)
  from unknown_field_fails_when_reached [OF h1 h2 h3, of "[]" "''proj''" "exampleData []"] h1 h2 h3
  show ?thesis by blast
qed

text \<open>
  The claim as stated fails twice: a clause on the field \<^verbatim>\<open>size\<close> raises no error
  when there is no record or when the only record is excluded before it, and when it
  does raise the error, the message \<^verbatim>\<open>Invalid filter\<close> does not contain the field name.
\<close>
theorem unknown_field_counterexample:
  "applyFilterOnDatabases goRegexp (Some []) [Some sizeFilter] = (Some [], None)
   \<and> applyFilterOnDatabases goRegexp (Some [exampleDb ''mysql-db2'' ''utf8''])
         [Some onlyOneFilter, Some sizeFilter]
       = (Some [], None)
   \<and> applyFilterOnDatabases goRegexp (Some [exampleDb ''mysql-db1'' ''utf8'']) [Some sizeFilter]
       = (Some [], Some ''Invalid filter'')
   \<and> \<not> sublist (filter_name sizeFilter) ''Invalid filter''"
  by code_simp

text \<open>
  Claim C5 (scenario B). For three records named \<^verbatim>\<open>mysql-db1\<close>, \<^verbatim>\<open>mysql-db2\<close>,
  \<^verbatim>\<open>mysql-db3\<close> (their other fields are arbitrary) and the single clause
  \<^verbatim>\<open>{name: "name", values: [".*[0-9]"], exclude_values: [".*2", ".*3"]}\<close>,
  \<^verbatim>\<open>applyFilterOnDatabases\<close> returns exactly the record \<^verbatim>\<open>mysql-db1\<close>, without error.
\<close>
theorem scenario_B_name_filter:
  "applyFilterOnDatabases goRegexp
     (Some [d1\<lparr>Name := ''mysql-db1''\<rparr>, d2\<lparr>Name := ''mysql-db2''\<rparr>, d3\<lparr>Name := ''mysql-db3''\<rparr>])
     [Some nameFilter]
   = (Some [d1\<lparr>Name := ''mysql-db1''\<rparr>], None)"
proof -
  have m1: "MatchString goRegexp ''.*[0-9]'' ''mysql-db1'' = Some True" by code_simp
  have m2: "MatchString goRegexp ''.*2'' ''mysql-db1'' = Some False" by code_simp
  have m3: "MatchString goRegexp ''.*3'' ''mysql-db1'' = Some False" by code_simp
  have m4: "MatchString goRegexp ''.*[0-9]'' ''mysql-db2'' = Some True" by code_simp
  have m5: "MatchString goRegexp ''.*2'' ''mysql-db2'' = Some True" by code_simp
  have m6: "MatchString goRegexp ''.*3'' ''mysql-db2'' = Some False" by code_simp
  have m7: "MatchString goRegexp ''.*[0-9]'' ''mysql-db3'' = Some True" by code_simp
  have m8: "MatchString goRegexp ''.*2'' ''mysql-db3'' = Some False" by code_simp
  have m9: "MatchString goRegexp ''.*3'' ''mysql-db3'' = Some True" by code_simp
  show ?thesis
    by (simp add: applyFilterOnDatabases_def elems_def nameFilter_def filtersLoop.simps
          regexMatch_def m1 m2 m3 m4 m5 m6 m7 m8 m9)
qed

text \<open>
  Claim C6 (identity and neutral clause). With an empty clause list
  \<^verbatim>\<open>applyFilterOnDatabases\<close> returns the records unchanged. For a clause \<open>c\<close> with a
  recognised field name and empty \<^verbatim>\<open>values\<close> and \<^verbatim>\<open>exclude_values\<close>, \<^verbatim>\<open>regexMatch\<close>
  returns \<^verbatim>\<open>include\<close> as it received it, and inserting \<open>c\<close> anywhere in a clause list
  changes neither the output nor the error of \<^verbatim>\<open>applyFilterOnDatabases\<close>. An empty
  \<^verbatim>\<open>values\<close> list never forces exclusion: for a clause \<open>c'\<close> without include
  patterns and with well-formed exclude patterns, \<^verbatim>\<open>regexMatch\<close> returns \<^verbatim>\<open>include\<close>
  unless an exclude pattern matches.
\<close>
theorem identity_and_neutral_clause:
  assumes "filter_name c = ''name'' \<or> filter_name c = ''charset'' \<or> filter_name c = ''collation''"
    and "filter_values c = []"
    and "filter_exclude_values c = []"
  shows "applyFilterOnDatabases rx databases [] = (databases, None)
       \<and> regexMatch rx c field incl = (incl, None)
       \<and> applyFilterOnDatabases rx databases (fs1 @ Some c # fs2)
           = applyFilterOnDatabases rx databases (fs1 @ fs2)
       \<and> (filter_values c' = [] \<and> firstMalformed rx (filter_exclude_values c') = None
            \<longrightarrow> regexMatch rx c' field' incl'
                  = (incl' \<and> \<not> (\<exists>p \<in> set (filter_exclude_values c'). matches rx p field'), None))"
proof -
  have "regexMatch rx c field incl = (incl, None)"
    using assms(2,3) by (simp add: regexMatch_def)
  moreover have "applyFilterOnDatabases rx databases (fs1 @ Some c # fs2)
      = applyFilterOnDatabases rx databases (fs1 @ fs2)"
    by (simp add: applyFilterOnDatabases_def
          neutral_databasesLoop [OF neutral_clauseError [OF assms] neutral_clauseIncludes [OF assms]])
  moreover have "regexMatch rx c' field' incl'
      = (incl' \<and> \<not> (\<exists>p \<in> set (filter_exclude_values c'). matches rx p field'), None)"
    if "filter_values c' = [] \<and> firstMalformed rx (filter_exclude_values c') = None"
    using that regexMatch_ok [of rx c' field' incl'] by simp
  ultimately show ?thesis
    by (simp add: applyFilter_no_filters)
qed

text \<open>
  A clause on \<^verbatim>\<open>charset\<close> without patterns, after the clause of the name-filter
  test; and a clause with the exclude pattern \<^verbatim>\<open>.*2\<close> only, on \<^verbatim>\<open>mysql-db1\<close>.
\<close>
theorem identity_and_neutral_clause_witness:
  "(filter_name neutralFilter = ''name'' \<or> filter_name neutralFilter = ''charset''
      \<or> filter_name neutralFilter = ''collation'')
   \<and> filter_values neutralFilter = []
   \<and> filter_exclude_values neutralFilter = []
   \<and> applyFilterOnDatabases goRegexp
        (Some [exampleDb ''mysql-db1'' ''utf8'', exampleDb ''mysql-db2'' ''utf8'']) []
       = (Some [exampleDb ''mysql-db1'' ''utf8'', exampleDb ''mysql-db2'' ''utf8''], None)
   \<and> regexMatch goRegexp neutralFilter ''utf8'' True = (True, None)
   \<and> applyFilterOnDatabases goRegexp
        (Some [exampleDb ''mysql-db1'' ''utf8'', exampleDb ''mysql-db2'' ''utf8''])
        ([Some nameFilter] @ Some neutralFilter # [])
       = applyFilterOnDatabases goRegexp
        (Some [exampleDb ''mysql-db1'' ''utf8'', exampleDb ''mysql-db2'' ''utf8''])
        ([Some nameFilter] @ [])
   \<and> filter_values excludeTwoFilter = []
   \<and> firstMalformed goRegexp (filter_exclude_values excludeTwoFilter) = None
   \<and> regexMatch goRegexp excludeTwoFilter ''mysql-db1'' True = (True, None)"
proof -
  have h1: "filter_name neutralFilter = ''name'' \<or> filter_name neutralFilter = ''charset''
      \<or> filter_name neutralFilter = ''collation''"
    by (simp add: neutralFilter_def)
  have h2: "filter_values neutralFilter = []"
    by (simp add: neutralFilter_def)
  have h3: "filter_exclude_values neutralFilter = []"
    by (simp add: neutralFilter_def)
  have h4: "filter_values excludeTwoFilter = []
      \<and> firstMalformed goRegexp (filter_exclude_values excludeTwoFilter) = None"
    by code_simp
  have nm: "\<not> (\<exists>p \<in> set (filter_exclude_values excludeTwoFilter). matches goRegexp p ''mysql-db1'')"
    by code_simp
  note t = identity_and_neutral_clause [OF h1 h2 h3, of goRegexp
      "Some [exampleDb ''mysql-db1'' ''utf8'', exampleDb ''mysql-db2'' ''utf8'']"
      "''utf8''" True "[Some nameFilter]" "[]" excludeTwoFilter "''mysql-db1''" True]
  from t [THEN conjunct2, THEN conjunct2, THEN conjunct2, THEN mp, OF h4] nm
  have e: "regexMatch goRegexp excludeTwoFilter ''mysql-db1'' True = (True, None)"
    by simp
  show ?thesis
    by (intro conjI)
       (rule h1 h2 h3 h4 [THEN conjunct1] h4 [THEN conjunct2] e t [THEN conjunct1]
             t [THEN conjunct2, THEN conjunct1] t [THEN conjunct2, THEN conjunct2, THEN conjunct1])+
qed

text \<open>
  Claim C7 (the projector). \<^verbatim>\<open>flattenDatabases\<close> returns a sequence for every input,
  the \<^verbatim>\<open>nil\<close> sequence included, and never \<^verbatim>\<open>nil\<close>; the empty and the \<^verbatim>\<open>nil\<close> input
  give the empty sequence; the output has the length of the input, and its \<open>i\<close>-th entry
  has exactly the six keys \<^verbatim>\<open>project\<close>, \<^verbatim>\<open>instance\<close>, \<^verbatim>\<open>name\<close>, \<^verbatim>\<open>charset\<close>,
  \<^verbatim>\<open>collation\<close>, \<^verbatim>\<open>self_link\<close>, each with the value of the \<open>i\<close>-th input record.
\<close>
theorem flattenDatabases_total:
  "flattenDatabases fetched \<noteq> None
   \<and> flattenDatabases None = Some []
   \<and> flattenDatabases (Some []) = Some []
   \<and> length (elems (flattenDatabases fetched)) = length (elems fetched)
   \<and> (\<forall>i < length (elems fetched).
        dom (elems (flattenDatabases fetched) ! i)
          = {''project'', ''instance'', ''name'', ''charset'', ''collation'', ''self_link''}
        \<and> (elems (flattenDatabases fetched) ! i) ''project'' = Some (Project (elems fetched ! i))
        \<and> (elems (flattenDatabases fetched) ! i) ''instance'' = Some (Instance (elems fetched ! i))
        \<and> (elems (flattenDatabases fetched) ! i) ''name'' = Some (Name (elems fetched ! i))
        \<and> (elems (flattenDatabases fetched) ! i) ''charset'' = Some (Charset (elems fetched ! i))
        \<and> (elems (flattenDatabases fetched) ! i) ''collation'' = Some (Collation (elems fetched ! i))
        \<and> (elems (flattenDatabases fetched) ! i) ''self_link'' = Some (SelfLink (elems fetched ! i)))"
proof -
  have e: "elems (flattenDatabases fetched) = map flattenDatabase (elems fetched)"
    by (simp add: flattenDatabases_eq elems_def)
  have d: "dom (flattenDatabase x)
      = {''project'', ''instance'', ''name'', ''charset'', ''collation'', ''self_link''}" for x
    by (auto simp: flattenDatabase_def)
  show ?thesis
    unfolding e
    by (simp add: flattenDatabases_eq d elems_def) (simp add: flattenDatabase_def)
qed

text \<open>The second entry for the two records of the unfiltered test.\<close>
theorem flattenDatabases_total_witness:
  "(1::nat) < length (elems (Some [exampleDb ''pg-db1'' ''UTF8'', exampleDb ''pg-db2'' ''UTF8'']))
   \<and> flattenDatabases (Some [exampleDb ''pg-db1'' ''UTF8'', exampleDb ''pg-db2'' ''UTF8'']) \<noteq> None
   \<and> length (elems (flattenDatabases (Some [exampleDb ''pg-db1'' ''UTF8'', exampleDb ''pg-db2'' ''UTF8''])))
       = 2
   \<and> (elems (flattenDatabases (Some [exampleDb ''pg-db1'' ''UTF8'', exampleDb ''pg-db2'' ''UTF8''])) ! 1)
        ''name'' = Some ''pg-db2''
   \<and> (elems (flattenDatabases (Some [exampleDb ''pg-db1'' ''UTF8'', exampleDb ''pg-db2'' ''UTF8''])) ! 1)
        ''self_link'' = Some ''sql/pg-db2''
   \<and> dom (elems (flattenDatabases (Some [exampleDb ''pg-db1'' ''UTF8'', exampleDb ''pg-db2'' ''UTF8''])) ! 1)
       = {''project'', ''instance'', ''name'', ''charset'', ''collation'', ''self_link''}"
proof -
  let ?in = "Some [exampleDb ''pg-db1'' ''UTF8'', exampleDb ''pg-db2'' ''UTF8'']"
  have h: "(1::nat) < length (elems ?in)"
    by (simp add: elems_def)
  have e: "elems ?in ! 1 = exampleDb ''pg-db2'' ''UTF8''"
    by (simp add: elems_def)
  note t = flattenDatabases_total [of ?in]
  note at_1 = t [THEN conjunct2, THEN conjunct2, THEN conjunct2, THEN conjunct2, rule_format, OF h]
  from t have "flattenDatabases ?in \<noteq> None"
    by (rule conjunct1)
  moreover from t have "length (elems (flattenDatabases ?in)) = length (elems ?in)"
    by simp
  ultimately show ?thesis
    using h at_1 unfolding e by (simp add: exampleDb_def elems_def)
qed

text \<open>
  Claim C8 (field verification). The list \<open>order\<close> enumerates the keys of the expected
  record as the loop visits them. The check returns \<^verbatim>\<open>nil\<close> exactly when the count
  \<^verbatim>\<open>databases.#\<close> parses, some entry below the count is named like the expected
  record, and at the last such entry every key of the expected record that is not
  ignored and not \<^verbatim>\<open>%\<close> agrees: the entry's value equals the expected value, or the
  key ends in \<^verbatim>\<open>#\<close> and both values are blank or \<^verbatim>\<open>0\<close>. A count that does not
  parse and a missing entry give their own errors. Once the entry is located (no key
  being the empty string) the error is the concatenation of one line, with the actual
  and the expected value, for every key that disagrees, in iteration order.
\<close>
theorem fields_match_iff_all_agree:
  assumes "set order = dom rsAttr"
    and "distinct order"
  shows "(checkDatabaseFieldsMatchForDataSourceStateAndResourceState dsAttr rsAttr order ignoreFields
            = Returns None
          \<longleftrightarrow> (\<exists>n i. Atoi (attr dsAttr ''databases.#'') = Some n
                 \<and> lastEntryNamed dsAttr rsAttr n i
                 \<and> (\<forall>k \<in> dom rsAttr. k \<notin> ignoreFields \<and> k \<noteq> ''%''
                       \<longrightarrow> fieldAgrees k (dsField dsAttr (Itoa i) k) (attr rsAttr k))))
       \<and> (Atoi (attr dsAttr ''databases.#'') = None
            \<longrightarrow> checkDatabaseFieldsMatchForDataSourceStateAndResourceState dsAttr rsAttr order ignoreFields
                  = Returns (Some ''Couldn't convert length of instances list to integer''))
       \<and> (Atoi (attr dsAttr ''databases.#'') = Some m \<and> noEntryNamed dsAttr rsAttr m
            \<longrightarrow> checkDatabaseFieldsMatchForDataSourceStateAndResourceState dsAttr rsAttr order ignoreFields
                  = Returns (Some ''The newly created intance is not found in the data source''))
       \<and> (Atoi (attr dsAttr ''databases.#'') = Some n' \<and> lastEntryNamed dsAttr rsAttr n' i'
            \<and> [] \<notin> dom rsAttr
            \<longrightarrow> checkDatabaseFieldsMatchForDataSourceStateAndResourceState dsAttr rsAttr order ignoreFields
                  = Returns (if mismatches dsAttr rsAttr ignoreFields (Itoa i') order = [] then None
                             else Some (concat (map (\<lambda>k. mismatchLine k (dsField dsAttr (Itoa i') k)
                                                           (attr rsAttr k))
                                                  (mismatches dsAttr rsAttr ignoreFields (Itoa i') order)))))"
proof (intro conjI impI)
  let ?check = "checkDatabaseFieldsMatchForDataSourceStateAndResourceState dsAttr rsAttr order ignoreFields"
  show "?check = Returns None
          \<longleftrightarrow> (\<exists>n i. Atoi (attr dsAttr ''databases.#'') = Some n
                 \<and> lastEntryNamed dsAttr rsAttr n i
                 \<and> (\<forall>k \<in> dom rsAttr. k \<notin> ignoreFields \<and> k \<noteq> ''%''
                       \<longrightarrow> fieldAgrees k (dsField dsAttr (Itoa i) k) (attr rsAttr k)))"
  proof
    assume ok: "?check = Returns None"
    then obtain n where n: "Atoi (attr dsAttr ''databases.#'') = Some n"
      by (cases "Atoi (attr dsAttr ''databases.#'')")
         (simp_all add: checkDatabaseFieldsMatchForDataSourceStateAndResourceState_def)
    with ok have "indexLoop dsAttr rsAttr n 0 ''-1'' \<noteq> ''-1''"
      by (auto simp: checkDatabaseFieldsMatchForDataSourceStateAndResourceState_def)
    then obtain i where i: "lastEntryNamed dsAttr rsAttr n i"
      using indexLoop_found by blast
    from ok check_located [OF n i, of order ignoreFields]
    have "mismatches dsAttr rsAttr ignoreFields (Itoa i) order = []"
      by (auto split: if_splits)
    with mismatches_empty [OF assms(1)] n i show "\<exists>n i. Atoi (attr dsAttr ''databases.#'') = Some n
                 \<and> lastEntryNamed dsAttr rsAttr n i
                 \<and> (\<forall>k \<in> dom rsAttr. k \<notin> ignoreFields \<and> k \<noteq> ''%''
                       \<longrightarrow> fieldAgrees k (dsField dsAttr (Itoa i) k) (attr rsAttr k))"
      by blast
  next
    assume "\<exists>n i. Atoi (attr dsAttr ''databases.#'') = Some n
                 \<and> lastEntryNamed dsAttr rsAttr n i
                 \<and> (\<forall>k \<in> dom rsAttr. k \<notin> ignoreFields \<and> k \<noteq> ''%''
                       \<longrightarrow> fieldAgrees k (dsField dsAttr (Itoa i) k) (attr rsAttr k))"
    then obtain n i where n: "Atoi (attr dsAttr ''databases.#'') = Some n"
      and i: "lastEntryNamed dsAttr rsAttr n i"
      and a: "\<forall>k \<in> dom rsAttr. k \<notin> ignoreFields \<and> k \<noteq> ''%''
                       \<longrightarrow> fieldAgrees k (dsField dsAttr (Itoa i) k) (attr rsAttr k)"
      by blast
    from a mismatches_empty [OF assms(1)]
    have ms: "mismatches dsAttr rsAttr ignoreFields (Itoa i) order = []"
      by blast
    with panic_is_mismatch [of order ignoreFields dsAttr "Itoa i" rsAttr]
    have "\<not> (\<exists>k \<in> set order. k = [] \<and> fieldCompared ignoreFields k
               \<and> dsField dsAttr (Itoa i) k \<noteq> attr rsAttr k)"
      by blast
    with ms check_located [OF n i, of order ignoreFields] show "?check = Returns None"
      by simp
  qed
next
  assume "Atoi (attr dsAttr ''databases.#'') = None"
  then show "checkDatabaseFieldsMatchForDataSourceStateAndResourceState dsAttr rsAttr order ignoreFields
      = Returns (Some ''Couldn't convert length of instances list to integer'')"
    by (simp add: checkDatabaseFieldsMatchForDataSourceStateAndResourceState_def)
next
  assume "Atoi (attr dsAttr ''databases.#'') = Some m \<and> noEntryNamed dsAttr rsAttr m"
  then show "checkDatabaseFieldsMatchForDataSourceStateAndResourceState dsAttr rsAttr order ignoreFields
      = Returns (Some ''The newly created intance is not found in the data source'')"
    by (simp add: checkDatabaseFieldsMatchForDataSourceStateAndResourceState_def indexLoop_missing)
next
  assume h: "Atoi (attr dsAttr ''databases.#'') = Some n' \<and> lastEntryNamed dsAttr rsAttr n' i'
      \<and> [] \<notin> dom rsAttr"
  then have "\<not> (\<exists>k \<in> set order. k = [] \<and> fieldCompared ignoreFields k
               \<and> dsField dsAttr (Itoa i') k \<noteq> attr rsAttr k)"
    using assms(1) by auto
  with h check_located [of dsAttr n' rsAttr i' order ignoreFields]
  show "checkDatabaseFieldsMatchForDataSourceStateAndResourceState dsAttr rsAttr order ignoreFields
      = Returns (if mismatches dsAttr rsAttr ignoreFields (Itoa i') order = [] then None
                 else Some (concat (map (\<lambda>k. mismatchLine k (dsField dsAttr (Itoa i') k)
                                               (attr rsAttr k))
                                      (mismatches dsAttr rsAttr ignoreFields (Itoa i') order))))"
    by simp
qed

text \<open>
  Three entries; the expected record \<^verbatim>\<open>pg-db2\<close> is the second. \<^verbatim>\<open>id\<close> and
  \<^verbatim>\<open>deletion_policy\<close> are ignored, and the count \<^verbatim>\<open>labels.#\<close> is blank on one side
  and \<^verbatim>\<open>0\<close> on the other: the check returns \<^verbatim>\<open>nil\<close>. With two fields changed, the
  error has two lines; with another name, the entry is not found; without the count,
  the conversion fails.
\<close>
theorem fields_match_iff_all_agree_witness:
  "set exampleOrder = dom exampleRsAttr
   \<and> distinct exampleOrder
   \<and> Atoi (attr exampleDsAttr ''databases.#'') = Some 3
   \<and> lastEntryNamed exampleDsAttr exampleRsAttr 3 1
   \<and> checkDatabaseFieldsMatchForDataSourceStateAndResourceState exampleDsAttr exampleRsAttr
        exampleOrder {''deletion_policy'', ''id''} = Returns None
   \<and> set exampleOrder = dom exampleRsAttrLatin
   \<and> lastEntryNamed exampleDsAttr exampleRsAttrLatin 3 1
   \<and> [] \<notin> dom exampleRsAttrLatin
   \<and> checkDatabaseFieldsMatchForDataSourceStateAndResourceState exampleDsAttr exampleRsAttrLatin
        exampleOrder {''deletion_policy'', ''id''}
       = Returns (Some (''instance is main; want other'' @ [CHR 0x0A]
                        @ ''charset is UTF8; want LATIN1'' @ [CHR 0x0A]))
   \<and> set exampleOrder = dom exampleRsAttrAbsent
   \<and> noEntryNamed exampleDsAttr exampleRsAttrAbsent 3
   \<and> checkDatabaseFieldsMatchForDataSourceStateAndResourceState exampleDsAttr exampleRsAttrAbsent
        exampleOrder {''deletion_policy'', ''id''}
       = Returns (Some ''The newly created intance is not found in the data source'')
   \<and> Atoi (attr Map.empty ''databases.#'') = None
   \<and> checkDatabaseFieldsMatchForDataSourceStateAndResourceState Map.empty exampleRsAttr
        exampleOrder {''deletion_policy'', ''id''}
       = Returns (Some ''Couldn't convert length of instances list to integer'')"
proof -
  let ?ig = "{''deletion_policy'', ''id''}"
  have o1: "set exampleOrder = dom exampleRsAttr"
    by (auto simp: exampleOrder_def exampleRsAttr_def)
  have o2: "set exampleOrder = dom exampleRsAttrLatin"
    by (auto simp: exampleOrder_def exampleRsAttrLatin_def exampleRsAttr_def)
  have o3: "set exampleOrder = dom exampleRsAttrAbsent"
    by (auto simp: exampleOrder_def exampleRsAttrAbsent_def exampleRsAttr_def)
  have d: "distinct exampleOrder"
    by (simp add: exampleOrder_def)
  have n: "Atoi (attr exampleDsAttr ''databases.#'') = Some 3"
    by code_simp
  have l1: "lastEntryNamed exampleDsAttr exampleRsAttr 3 1"
    by code_simp
  have l2: "lastEntryNamed exampleDsAttr exampleRsAttrLatin 3 1"
    by code_simp
  have e2: "[] \<notin> dom exampleRsAttrLatin"
    unfolding o2 [symmetric] by (simp add: exampleOrder_def)
  have a3: "noEntryNamed exampleDsAttr exampleRsAttrAbsent 3"
    by code_simp
  have n4: "Atoi (attr Map.empty ''databases.#'') = None"
    by code_simp
  have agree: "\<forall>k \<in> set exampleOrder. k \<notin> ?ig \<and> k \<noteq> ''%''
      \<longrightarrow> fieldAgrees k (dsField exampleDsAttr (Itoa 1) k) (attr exampleRsAttr k)"
    by code_simp
  have ex: "\<exists>n i. Atoi (attr exampleDsAttr ''databases.#'') = Some n
      \<and> lastEntryNamed exampleDsAttr exampleRsAttr n i
      \<and> (\<forall>k \<in> dom exampleRsAttr. k \<notin> ?ig \<and> k \<noteq> ''%''
            \<longrightarrow> fieldAgrees k (dsField exampleDsAttr (Itoa i) k) (attr exampleRsAttr k))"
    using n l1 agree unfolding o1 by blast
  note t1 = fields_match_iff_all_agree [OF o1 d, of exampleDsAttr ?ig]
  have c1: "checkDatabaseFieldsMatchForDataSourceStateAndResourceState exampleDsAttr exampleRsAttr
        exampleOrder ?ig = Returns None"
    by (rule t1 [THEN conjunct1, THEN iffD2, OF ex])
  note t2 = fields_match_iff_all_agree [OF o2 d, of exampleDsAttr ?ig 0 3 1]
  have msg: "(if mismatches exampleDsAttr exampleRsAttrLatin ?ig (Itoa 1) exampleOrder = [] then None
       else Some (concat (map (\<lambda>k. mismatchLine k (dsField exampleDsAttr (Itoa 1) k)
                                     (attr exampleRsAttrLatin k))
                            (mismatches exampleDsAttr exampleRsAttrLatin ?ig (Itoa 1) exampleOrder))))
      = Some (''instance is main; want other'' @ [CHR 0x0A]
              @ ''charset is UTF8; want LATIN1'' @ [CHR 0x0A])"
    by code_simp
  have c2: "checkDatabaseFieldsMatchForDataSourceStateAndResourceState exampleDsAttr exampleRsAttrLatin
        exampleOrder ?ig
       = Returns (Some (''instance is main; want other'' @ [CHR 0x0A]
                        @ ''charset is UTF8; want LATIN1'' @ [CHR 0x0A]))"
    using t2 [THEN conjunct2, THEN conjunct2, THEN conjunct2, THEN mp, OF conjI [OF n conjI [OF l2 e2]]]
    unfolding msg .
  note t3 = fields_match_iff_all_agree [OF o3 d, of exampleDsAttr ?ig 3]
  have c3: "checkDatabaseFieldsMatchForDataSourceStateAndResourceState exampleDsAttr exampleRsAttrAbsent
        exampleOrder ?ig
       = Returns (Some ''The newly created intance is not found in the data source'')"
    by (rule t3 [THEN conjunct2, THEN conjunct2, THEN conjunct1, THEN mp, OF conjI [OF n a3]])
  note t4 = fields_match_iff_all_agree [OF o1 d, of Map.empty ?ig]
  have c4: "checkDatabaseFieldsMatchForDataSourceStateAndResourceState Map.empty exampleRsAttr
        exampleOrder ?ig
       = Returns (Some ''Couldn't convert length of instances list to integer'')"
    by (rule t4 [THEN conjunct2, THEN conjunct1, THEN mp, OF n4])
  show ?thesis
    by (intro conjI) (rule o1 d n l1 c1 o2 l2 e2 c2 o3 a3 c3 n4 c4)+
qed

text \<open>
  Claim C9 (clause errors are lazy). For an empty record sequence
  \<^verbatim>\<open>applyFilterOnDatabases\<close> succeeds and returns its input, whatever the clauses. A
  record that the clauses \<open>fs1\<close> exclude stays excluded, without error, whatever
  clauses \<open>fs2\<close> follow; when they exclude every record, the invocation has no error.
  And an error of the invocation is the error of a clause that the evaluation of some
  record reaches: the clauses before it leave \<^verbatim>\<open>include\<close> true for that record.
\<close>
theorem clause_errors_are_lazy:
  "(elems databases0 = [] \<longrightarrow> applyFilterOnDatabases rx databases0 fs0 = (databases0, None))
   \<and> (filtersLoop rx d True fs1 = Inr False \<longrightarrow> filtersLoop rx d True (fs1 @ fs2) = Inr False)
   \<and> ((\<forall>x \<in> set (elems databases1). filtersLoop rx x True fs1 = Inr False)
         \<longrightarrow> snd (applyFilterOnDatabases rx databases1 (fs1 @ fs2)) = None)
   \<and> (applyFilterOnDatabases rx databases fs = (out, Some e)
         \<longrightarrow> (\<exists>x \<in> set (elems databases). \<exists>pre c post.
                fs = pre @ Some c # post \<and> filtersLoop rx x True pre = Inr True
                \<and> clauseError rx c = Some e))"
proof -
  have a: "snd (applyFilterOnDatabases rx databases1 (fs1 @ fs2)) = None"
    if h: "\<forall>x \<in> set (elems databases1). filtersLoop rx x True fs1 = Inr False"
  proof (cases "snd (applyFilterOnDatabases rx databases1 (fs1 @ fs2))")
    case None
    then show ?thesis .
  next
    case (Some e')
    then have "applyFilterOnDatabases rx databases1 (fs1 @ fs2)
        = (fst (applyFilterOnDatabases rx databases1 (fs1 @ fs2)), Some e')"
      by (simp add: prod_eq_iff)
    from applyFilter_err [OF this] obtain ds1 x ds2 where
      "elems databases1 = ds1 @ x # ds2" "filtersLoop rx x True (fs1 @ fs2) = Inl e'"
      by blast
    with h filtersLoop_excluded [of rx x fs1 fs2] show ?thesis by simp
  qed
  have b: "\<exists>x \<in> set (elems databases). \<exists>pre c post.
      fs = pre @ Some c # post \<and> filtersLoop rx x True pre = Inr True \<and> clauseError rx c = Some e"
    if h: "applyFilterOnDatabases rx databases fs = (out, Some e)"
  proof -
    from applyFilter_err [OF h] obtain ds1 x ds2 where
      x: "elems databases = ds1 @ x # ds2" "filtersLoop rx x True fs = Inl e"
      by blast
    from filtersLoop_Inl [OF x(2)] x(1) show ?thesis by auto
  qed
  show ?thesis
    using a b by (simp add: applyFilter_empty filtersLoop_excluded)
qed

text \<open>
  No record with two invalid clauses; \<^verbatim>\<open>mysql-db2\<close> and \<^verbatim>\<open>mysql-db3\<close> excluded by
  \<^verbatim>\<open>.*1\<close> before the invalid clauses; \<^verbatim>\<open>mysql-db1\<close> reaching the clause on \<^verbatim>\<open>size\<close>.
\<close>
theorem clause_errors_are_lazy_witness:
  "elems (Some []) = ([] :: Database list)
   \<and> applyFilterOnDatabases goRegexp (Some []) [Some badRegexFilter, Some sizeFilter] = (Some [], None)
   \<and> filtersLoop goRegexp (exampleDb ''mysql-db2'' ''utf8'') True [Some onlyOneFilter] = Inr False
   \<and> filtersLoop goRegexp (exampleDb ''mysql-db2'' ''utf8'') True
        ([Some onlyOneFilter] @ [Some badRegexFilter, Some sizeFilter]) = Inr False
   \<and> filtersLoop goRegexp (exampleDb ''mysql-db3'' ''utf8'') True [Some onlyOneFilter] = Inr False
   \<and> snd (applyFilterOnDatabases goRegexp
            (Some [exampleDb ''mysql-db2'' ''utf8'', exampleDb ''mysql-db3'' ''utf8''])
            ([Some onlyOneFilter] @ [Some badRegexFilter, Some sizeFilter])) = None
   \<and> applyFilterOnDatabases goRegexp
        (Some [exampleDb ''mysql-db2'' ''utf8'', exampleDb ''mysql-db1'' ''utf8''])
        [Some onlyOneFilter, Some sizeFilter]
       = (Some [], Some ''Invalid filter'')
   \<and> (\<exists>x \<in> set (elems (Some [exampleDb ''mysql-db2'' ''utf8'', exampleDb ''mysql-db1'' ''utf8''])).
         \<exists>pre c post. [Some onlyOneFilter, Some sizeFilter] = pre @ Some c # post
           \<and> filtersLoop goRegexp x True pre = Inr True
           \<and> clauseError goRegexp c = Some ''Invalid filter'')"
proof -
  have h1: "elems (Some []) = ([] :: Database list)"
    by (simp add: elems_def)
  have h2: "filtersLoop goRegexp (exampleDb ''mysql-db2'' ''utf8'') True [Some onlyOneFilter] = Inr False"
    by code_simp
  have h3: "\<forall>x \<in> set (elems (Some [exampleDb ''mysql-db2'' ''utf8'', exampleDb ''mysql-db3'' ''utf8''])).
         filtersLoop goRegexp x True [Some onlyOneFilter] = Inr False"
    by code_simp
  have h4: "applyFilterOnDatabases goRegexp
        (Some [exampleDb ''mysql-db2'' ''utf8'', exampleDb ''mysql-db1'' ''utf8''])
        [Some onlyOneFilter, Some sizeFilter]
       = (Some [], Some ''Invalid filter'')"
    by code_simp
  note t = clause_errors_are_lazy [of "Some []" goRegexp "[Some badRegexFilter, Some sizeFilter]"
      "exampleDb ''mysql-db2'' ''utf8''" "[Some onlyOneFilter]" "[Some badRegexFilter, Some sizeFilter]"
      "Some [exampleDb ''mysql-db2'' ''utf8'', exampleDb ''mysql-db3'' ''utf8'']"
      "Some [exampleDb ''mysql-db2'' ''utf8'', exampleDb ''mysql-db1'' ''utf8'']"
      "[Some onlyOneFilter, Some sizeFilter]" "Some []" "''Invalid filter''"]
  note c1 = t [THEN conjunct1, THEN mp, OF h1]
  note c2 = t [THEN conjunct2, THEN conjunct1, THEN mp, OF h2]
  note c3 = t [THEN conjunct2, THEN conjunct2, THEN conjunct1, THEN mp, OF h3]
  note c4 = t [THEN conjunct2, THEN conjunct2, THEN conjunct2, THEN mp, OF h4]
  have h3': "filtersLoop goRegexp (exampleDb ''mysql-db3'' ''utf8'') True [Some onlyOneFilter] = Inr False"
    by code_simp
  show ?thesis
    by (intro conjI) (rule h1 c1 h2 c2 h3' c3 h4 c4)+
qed

text \<open>
  Claim C10 (what is returned with an error), as the code has it. When
  \<^verbatim>\<open>applyFilterOnDatabases\<close> returns an error, the sequence beside it is the
  accumulator \<^verbatim>\<open>filteredDatabases\<close>, and the accumulator is then empty (and not \<^verbatim>\<open>nil\<close>):
  the input is \<open>ds1 @ d # ds2\<close>, the error is raised on \<open>d\<close>, the sequence is the
  survivors among the records \<open>ds1\<close> processed before \<open>d\<close>, and every record of
  \<open>ds1\<close> was excluded, since a record that no clause excludes meets the same invalid
  clause. The read operation returns only the error and leaves the resource data as it
  was.
\<close>
theorem error_returns_empty_accumulator:
  assumes "applyFilterOnDatabases rx databases fs = (out, Some e)"
  shows "out = Some []
       \<and> (\<exists>ds1 d ds2. elems databases = ds1 @ d # ds2
             \<and> (\<forall>x \<in> set ds1. filtersLoop rx x True fs = Inr False)
             \<and> filtersLoop rx d True fs = Inl e
             \<and> out = Some (filter (survives rx fs) ds1))
       \<and> dataSourceSqlDatabasesRead rx project databases (r\<lparr>rd_filters := fs\<rparr>)
           = (r\<lparr>rd_filters := fs\<rparr>, Some e)"
proof -
  from applyFilter_err [OF assms] obtain ds1 d ds2 where
    *: "out = Some []" "elems databases = ds1 @ d # ds2"
       "\<forall>x \<in> set ds1. filtersLoop rx x True fs = Inr False" "filtersLoop rx d True fs = Inl e"
    by blast
  from *(3) have "\<forall>x \<in> set ds1. \<not> survives rx fs x"
    using filtersLoop_Inr by blast
  then have "filter (survives rx fs) ds1 = []"
    by (simp add: filter_empty_conv)
  with *(1) have o: "out = Some (filter (survives rx fs) ds1)" by simp
  from *(2) have "d \<in> set (elems databases)" by simp
  from read_fails [OF this *(4)] * o show ?thesis by blast
qed

text \<open>\<^verbatim>\<open>mysql-db2\<close> is excluded, then \<^verbatim>\<open>mysql-db1\<close> reaches the malformed pattern.\<close>
theorem error_returns_empty_accumulator_witness:
  "applyFilterOnDatabases goRegexp
       (Some [exampleDb ''mysql-db2'' ''utf8'', exampleDb ''mysql-db1'' ''utf8''])
       [Some onlyOneFilter, Some badRegexFilter]
     = (Some [], Some ''Invalid regex [0-9'')
   \<and> (\<exists>ds1 d ds2.
         elems (Some [exampleDb ''mysql-db2'' ''utf8'', exampleDb ''mysql-db1'' ''utf8'']) = ds1 @ d # ds2
         \<and> (\<forall>x \<in> set ds1. filtersLoop goRegexp x True [Some onlyOneFilter, Some badRegexFilter] = Inr False)
         \<and> filtersLoop goRegexp d True [Some onlyOneFilter, Some badRegexFilter]
             = Inl ''Invalid regex [0-9''
         \<and> Some [] = Some (filter (survives goRegexp [Some onlyOneFilter, Some badRegexFilter]) ds1))
   \<and> dataSourceSqlDatabasesRead goRegexp ''proj''
        (Some [exampleDb ''mysql-db2'' ''utf8'', exampleDb ''mysql-db1'' ''utf8''])
        ((exampleData [])\<lparr>rd_filters := [Some onlyOneFilter, Some badRegexFilter]\<rparr>)
       = ((exampleData [])\<lparr>rd_filters := [Some onlyOneFilter, Some badRegexFilter]\<rparr>,
          Some ''Invalid regex [0-9'')"
proof -
  have h: "applyFilterOnDatabases goRegexp
       (Some [exampleDb ''mysql-db2'' ''utf8'', exampleDb ''mysql-db1'' ''utf8''])
       [Some onlyOneFilter, Some badRegexFilter]
     = (Some [], Some ''Invalid regex [0-9'')"
    by code_simp
  note t = error_returns_empty_accumulator [OF h, of "''proj''" "exampleData []"]
  show ?thesis
    by (intro conjI) (rule h t [THEN conjunct2, THEN conjunct1] t [THEN conjunct2, THEN conjunct2])+
qed

text \<open>
  The claim as stated says that the sequence returned with the error is not empty. Here
  the error is raised on the second of three records, and the sequence is empty.
\<close>
theorem partial_result_counterexample:
  "applyFilterOnDatabases goRegexp
     (Some [exampleDb ''mysql-db2'' ''utf8'', exampleDb ''mysql-db1'' ''utf8'',
            exampleDb ''mysql-db3'' ''utf8''])
     [Some onlyOneFilter, Some sizeFilter]
   = (Some [], Some ''Invalid filter'')"
  by code_simp

end
